theory Spec2Isabelle
  imports Main "HOL-Library.Sublist" "HOL-Library.Word"
begin

section \<open>JavaScript strings\<close>

text \<open>
  A JavaScript string is modelled as a \<^typ>\<open>string\<close>; a \<^typ>\<open>char\<close> stands for the
  UTF-16 code unit of the same number (U+0000 to U+00FF).
\<close>

text \<open>\<^verbatim>\<open>String.prototype.includes\<close>: the argument occurs somewhere in the receiver.\<close>

primrec str_includes :: "string \<Rightarrow> string \<Rightarrow> bool" where
  "str_includes [] sub = (sub = [])"
| "str_includes (c # cs) sub = (prefix sub (c # cs) \<or> str_includes cs sub)"

text \<open>
  \<^verbatim>\<open>String.prototype.toLowerCase\<close> on code units below 256: the ASCII capitals and the
  Latin-1 capitals U+00C0 to U+00DE (the multiplication sign U+00D7 apart) move up by 32.
\<close>

definition lower_char :: "char \<Rightarrow> char" where
  "lower_char c = (let n = (of_char c :: nat) in
     if (65 \<le> n \<and> n \<le> 90) \<or> (192 \<le> n \<and> n \<le> 222 \<and> n \<noteq> 215)
     then char_of (n + 32) else c)"

definition toLowerCase :: "string \<Rightarrow> string" where
  "toLowerCase s = map lower_char s"

text \<open>
  \<^verbatim>\<open>String.prototype.trim\<close>: white space of ECMAScript below U+0100 is TAB, LF, VT, FF,
  CR, SPACE and NO-BREAK SPACE.
\<close>

definition is_space :: "char \<Rightarrow> bool" where
  "is_space c = ((of_char c :: nat) \<in> {9, 10, 11, 12, 13, 32, 160})"

definition trim :: "string \<Rightarrow> string" where
  "trim s = rev (dropWhile is_space (rev (dropWhile is_space s)))"

text \<open>\<^verbatim>\<open>Array.prototype.join\<close> on an array of strings.\<close>

fun join :: "string \<Rightarrow> string list \<Rightarrow> string" where
  "join sep [] = []"
| "join sep [x] = x"
| "join sep (x # y # ys) = x @ sep @ join sep (y # ys)"

text \<open>The decimal digits of a number, as \<^verbatim>\<open>String(n)\<close> prints a non-negative integer.\<close>

definition digit_char :: "nat \<Rightarrow> char" where
  "digit_char d = ''0123456789'' ! d"

fun string_of_nat :: "nat \<Rightarrow> string" where
  "string_of_nat n =
     (let last_digit = [digit_char (n mod 10)] in
      if 10 \<le> n then string_of_nat (n div 10) @ last_digit else last_digit)"

declare string_of_nat.simps [simp del]

section \<open>Errors\<close>

text \<open>
  Every failure of the source is a JavaScript \<^verbatim>\<open>Error\<close> with a message; the error thrown
  after the last attempt also has the property \<^verbatim>\<open>lastError\<close>.
\<close>

datatype error = Error (message: string) (lastError: "error option")

section \<open>Validation of the data URI\<close>

text \<open>The character classes \<^verbatim>\<open>[a-zA-Z0-9]\<close>, \<^verbatim>\<open>[a-zA-Z0-9\/\-\+\.]\<close> and \<^verbatim>\<open>[A-Za-z0-9+/=]\<close>.\<close>

definition is_alnum :: "char \<Rightarrow> bool" where
  "is_alnum c = (let n = (of_char c :: nat) in
     (48 \<le> n \<and> n \<le> 57) \<or> (65 \<le> n \<and> n \<le> 90) \<or> (97 \<le> n \<and> n \<le> 122))"

definition mime_char :: "char \<Rightarrow> bool" where
  "mime_char c = (is_alnum c \<or> c \<in> set ''/-+.'')"

definition base64_char :: "char \<Rightarrow> bool" where
  "base64_char c = (is_alnum c \<or> c \<in> set ''+/='')"

definition strip_prefix :: "string \<Rightarrow> string \<Rightarrow> string option" where
  "strip_prefix p s = (if prefix p s then Some (drop (length p) s) else None)"

record data_uri =
  mimeType :: string
  base64 :: string

definition invalid_uri_error :: error where
  "invalid_uri_error = Error
     (''Invalid audioDataUri. Expected a data URI containing a MIME type and base64-encoded data, ''
      @ ''e.g. '' @ [CHR 0x27] @ ''data:audio/wav;base64,<encoded>'' @ [CHR 0x27]) None"

text \<open>
  \<^verbatim>\<open>/^data:([a-zA-Z0-9\/\-\+\.]+);base64,([A-Za-z0-9+/=]+)$/.exec(uri)\<close>, read from left to
  right: the literal \<^verbatim>\<open>data:\<close>, the longest run of MIME characters (group 1, not empty),
  the literal \<^verbatim>\<open>;base64,\<close>, and a run of base64 characters (group 2, not empty) up to
  the end of the input. No match throws.
\<close>

definition validateDataUri :: "string \<Rightarrow> error + data_uri" where
  "validateDataUri uri =
     (case strip_prefix ''data:'' uri of
        None \<Rightarrow> Inl invalid_uri_error
      | Some r1 \<Rightarrow>
          let g1 = takeWhile mime_char r1 in
          if g1 = [] then Inl invalid_uri_error
          else (case strip_prefix '';base64,'' (dropWhile mime_char r1) of
                  None \<Rightarrow> Inl invalid_uri_error
                | Some g2 \<Rightarrow>
                    if g2 \<noteq> [] \<and> list_all base64_char g2
                    then Inr \<lparr>mimeType = g1, base64 = g2\<rparr>
                    else Inl invalid_uri_error))"

section \<open>Codec inference\<close>

definition mimeTypeToEncoding :: "string \<Rightarrow> string option" where
  "mimeTypeToEncoding mime =
     (let lowerMime = toLowerCase mime in
      if str_includes lowerMime ''webm'' then Some ''WEBM_OPUS''
      else if str_includes lowerMime ''wav'' then Some ''WAV''
      else if str_includes lowerMime ''mp3'' then Some ''MP3''
      else if str_includes lowerMime ''flac'' then Some ''FLAC''
      else if str_includes lowerMime ''amr'' then Some ''AMR''
      else if str_includes lowerMime ''ogg'' then Some ''OGG_OPUS''
      else None)"

text \<open>
  The table of the specification, in its order, and the lookup it describes: the first
  entry whose key occurs in the lower-cased media type.
\<close>

definition codec_table :: "(string \<times> string) list" where
  "codec_table =
     [(''webm'', ''WEBM_OPUS''), (''wav'', ''WAV''), (''mp3'', ''MP3''),
      (''flac'', ''FLAC''), (''amr'', ''AMR''), (''ogg'', ''OGG_OPUS'')]"

definition spec_codec :: "string \<Rightarrow> string option" where
  "spec_codec mediaType =
     map_option snd (find (\<lambda>(k, v). str_includes (toLowerCase mediaType) k) codec_table)"

section \<open>JSON values\<close>

text \<open>
  The values \<^verbatim>\<open>JSON.parse\<close> returns. An object is the list of its own properties in
  enumeration order, with distinct keys. A number is carried by the text JavaScript
  prints for it (\<^verbatim>\<open>Number.prototype.toString\<close>: \<^verbatim>\<open>0.5\<close>, \<^verbatim>\<open>1e+21\<close>, and
  \<^verbatim>\<open>0\<close> for both zeros), which is all the flow reads of a finite number; a literal
  beyond the range of a double is an infinity.
\<close>

datatype js_number = Finite string | PlusInfinity | MinusInfinity

datatype json =
    JNull
  | JBool bool
  | JNum js_number
  | JStr string
  | JArr "json list"
  | JObj "(string \<times> json) list"

text \<open>Truthiness (\<^verbatim>\<open>!v\<close>, \<^verbatim>\<open>a && b\<close>) of a parsed value.\<close>

fun truthy :: "json \<Rightarrow> bool" where
  "truthy JNull = False"
| "truthy (JBool b) = b"
| "truthy (JNum n) = (n \<noteq> Finite ''0'')"
| "truthy (JStr s) = (s \<noteq> [])"
| "truthy (JArr xs) = True"
| "truthy (JObj kvs) = True"

text \<open>
  Reading one of the properties \<^verbatim>\<open>error\<close>, \<^verbatim>\<open>message\<close>, \<^verbatim>\<open>results\<close>,
  \<^verbatim>\<open>alternatives\<close>, \<^verbatim>\<open>transcript\<close> of a value that is not \<^verbatim>\<open>null\<close>:
  \<open>None\<close> is \<^verbatim>\<open>undefined\<close>. Only an object has such a property.
\<close>

fun get_prop :: "json \<Rightarrow> string \<Rightarrow> json option" where
  "get_prop (JObj kvs) k = map_of kvs k"
| "get_prop v k = None"

text \<open>Optional chaining \<^verbatim>\<open>v?.k\<close>, where \<open>None\<close> is \<^verbatim>\<open>undefined\<close>.\<close>

fun opt_chain :: "json option \<Rightarrow> string \<Rightarrow> json option" where
  "opt_chain None k = None"
| "opt_chain (Some JNull) k = None"
| "opt_chain (Some v) k = get_prop v k"

text \<open>\<^verbatim>\<open>JSON.stringify\<close> with one argument.\<close>

definition hex_digit :: "nat \<Rightarrow> char" where
  "hex_digit n = ''0123456789abcdef'' ! n"

definition escape_char :: "char \<Rightarrow> string" where
  "escape_char c = (let n = (of_char c :: nat) in
     if n = 34 then [CHR 0x5C, CHR 0x22]
     else if n = 92 then [CHR 0x5C, CHR 0x5C]
     else if n = 8 then [CHR 0x5C, CHR ''b'']
     else if n = 9 then [CHR 0x5C, CHR ''t'']
     else if n = 10 then [CHR 0x5C, CHR ''n'']
     else if n = 12 then [CHR 0x5C, CHR ''f'']
     else if n = 13 then [CHR 0x5C, CHR ''r'']
     else if n < 32 then
       [CHR 0x5C, CHR ''u'', CHR ''0'', CHR ''0'', hex_digit (n div 16), hex_digit (n mod 16)]
     else [c])"

definition quote :: "string \<Rightarrow> string" where
  "quote s = [CHR 0x22] @ concat (map escape_char s) @ [CHR 0x22]"

fun JSON_stringify :: "json \<Rightarrow> string" where
  "JSON_stringify JNull = ''null''"
| "JSON_stringify (JBool b) = (if b then ''true'' else ''false'')"
| "JSON_stringify (JNum n) = (case n of Finite t \<Rightarrow> t | _ \<Rightarrow> ''null'')"
| "JSON_stringify (JStr s) = quote s"
| "JSON_stringify (JArr xs) = ''['' @ join '','' (map JSON_stringify xs) @ '']''"
| "JSON_stringify (JObj kvs) =
     ''{'' @ join '','' (map (\<lambda>(k, v). quote k @ '':'' @ JSON_stringify v) kvs) @ ''}''"

text \<open>
  \<^verbatim>\<open>JSON.stringify(json)\<close> inside a template literal, where \<^verbatim>\<open>json\<close> may be
  \<^verbatim>\<open>undefined\<close>.
\<close>

definition stringify_opt :: "json option \<Rightarrow> string" where
  "stringify_opt json = (case json of None \<Rightarrow> ''undefined'' | Some j \<Rightarrow> JSON_stringify j)"

text \<open>
  The string a template literal makes of a parsed value (\<^verbatim>\<open>ToString\<close>), or the
  TypeError it throws (the message is V8's). An object is converted through its
  \<^verbatim>\<open>toString\<close> property: without an own one this is \<^verbatim>\<open>Object.prototype.toString\<close>;
  an own one, which in parsed JSON is never a function, is passed over, and
  \<^verbatim>\<open>valueOf\<close> then gives no primitive, so the conversion throws. An array joins the
  conversions of its elements with commas, \<^verbatim>\<open>null\<close> counting as the empty string.
\<close>

definition to_primitive_error :: error where
  "to_primitive_error = Error ''Cannot convert object to primitive value'' None"

fun first_error :: "(error + string) list \<Rightarrow> error + string list" where
  "first_error [] = Inr []"
| "first_error (Inl e # rs) = Inl e"
| "first_error (Inr s # rs) =
     (case first_error rs of Inl e \<Rightarrow> Inl e | Inr ss \<Rightarrow> Inr (s # ss))"

fun js_String :: "json \<Rightarrow> error + string" where
  "js_String JNull = Inr ''null''"
| "js_String (JBool b) = Inr (if b then ''true'' else ''false'')"
| "js_String (JNum n) =
     Inr (case n of Finite t \<Rightarrow> t | PlusInfinity \<Rightarrow> ''Infinity''
          | MinusInfinity \<Rightarrow> ''-Infinity'')"
| "js_String (JStr s) = Inr s"
| "js_String (JArr xs) =
     (case first_error (map (\<lambda>x. if x = JNull then Inr [] else js_String x) xs) of
        Inl e \<Rightarrow> Inl e
      | Inr parts \<Rightarrow> Inr (join '','' parts))"
| "js_String (JObj kvs) =
     (if map_of kvs ''toString'' = None then Inr ''[object Object]'' else Inl to_primitive_error)"

section \<open>The transcription flow\<close>

record transcribe_input =
  audioDataUri :: string
  languageCode :: "string option"
  apiKey :: "string option"

record flow_output =
  transcription :: string

text \<open>
  The request sent to the recognition service: the key that goes into the query string of
  the URL, and the body (\<open>encoding\<close> is \<open>None\<close> when the property is left out).
\<close>

record recognition_config =
  cfg_languageCode :: string
  enableAutomaticPunctuation :: bool
  model :: string
  encoding :: "string option"

record request =
  url_key :: string
  config :: recognition_config
  content :: string

text \<open>
  What the flow does to the outside, in order: a pause of so many milliseconds, or one
  call of \<^verbatim>\<open>fetchWithTimeout\<close>.
\<close>

datatype event = Delay nat | Fetch request

text \<open>
  A response as the flow reads it: the status, the text of the body, and what
  \<^verbatim>\<open>JSON.parse\<close> makes of that text (\<open>None\<close> when it throws).
\<close>

record response =
  status :: nat
  body :: string
  parsed :: "json option"

text \<open>
  The outcome of one network call: \<^verbatim>\<open>fetchWithTimeout\<close> or \<^verbatim>\<open>resp.text()\<close>
  rejects (a network failure, or the abort after 60 seconds), or the response arrives.
\<close>

datatype fetch_result = Rejected error | Resolved response

text \<open>\<^verbatim>\<open>Response.ok\<close>: the status is in the range 200 to 299.\<close>

definition ok :: "response \<Rightarrow> bool" where
  "ok resp = (200 \<le> status resp \<and> status resp \<le> 299)"

text \<open>How a block of the loop body ends.\<close>

datatype completion = Return flow_output | Continue error | Throw error

definition MAX_ATTEMPTS :: nat where
  "MAX_ATTEMPTS = 3"

definition BASE_BACKOFF_MS :: nat where
  "BASE_BACKOFF_MS = 500"

definition no_key_error :: error where
  "no_key_error = Error
     (''No Google API key provided. Set GEMINI_API_KEY in environment or pass apiKey in the input.'')
     None"

text \<open>
  \<^verbatim>\<open>input.apiKey ?? process.env.GEMINI_API_KEY\<close>, then \<^verbatim>\<open>if (!apiKey) throw\<close>; the second
  argument is the environment variable.
\<close>

definition resolveApiKey :: "string option \<Rightarrow> string option \<Rightarrow> error + string" where
  "resolveApiKey inputKey envKey =
     (let apiKey = (case inputKey of Some k \<Rightarrow> Some k | None \<Rightarrow> envKey) in
      case apiKey of
        None \<Rightarrow> Inl no_key_error
      | Some k \<Rightarrow> if k = [] then Inl no_key_error else Inr k)"

text \<open>
  \<^verbatim>\<open>json?.error?.message ?? JSON.stringify(json)\<close> as the template literal of the next
  line converts it, or the TypeError of that conversion.
\<close>

definition serverMessage :: "json option \<Rightarrow> error + string" where
  "serverMessage json =
     (case opt_chain (opt_chain json ''error'') ''message'' of
        None \<Rightarrow> Inr (stringify_opt json)
      | Some JNull \<Rightarrow> Inr (stringify_opt json)
      | Some m \<Rightarrow> js_String m)"

text \<open>
  \<^verbatim>\<open>!json || !Array.isArray(json.results) || json.results.length === 0\<close>: \<open>None\<close> when
  the condition holds, the array otherwise.
\<close>

definition results_of :: "json option \<Rightarrow> json list option" where
  "results_of json =
     (case json of
        None \<Rightarrow> None
      | Some j \<Rightarrow>
          if \<not> truthy j then None
          else (case get_prop j ''results'' of
                  Some (JArr rs) \<Rightarrow> if rs = [] then None else Some rs
                | _ \<Rightarrow> None))"

text \<open>Reading \<^verbatim>\<open>r.alternatives\<close> of \<^verbatim>\<open>null\<close> throws a TypeError (the message is V8's).\<close>

definition null_read_error :: error where
  "null_read_error = Error
     (''Cannot read properties of null (reading '' @ [CHR 0x27] @ ''alternatives'' @ [CHR 0x27] @ '')'')
     None"

text \<open>
  One round of \<^verbatim>\<open>for (const r of json.results)\<close>: the transcript to push, if any.
\<close>

definition segment :: "json \<Rightarrow> error + string option" where
  "segment r =
     (if r = JNull then Inl null_read_error
      else (case get_prop r ''alternatives'' of
              Some (JArr (alt # _)) \<Rightarrow>
                if truthy alt
                then (case get_prop alt ''transcript'' of
                        Some (JStr t) \<Rightarrow> Inr (Some t)
                      | _ \<Rightarrow> Inr None)
                else Inr None
            | _ \<Rightarrow> Inr None))"

fun collect_transcripts :: "json list \<Rightarrow> string list \<Rightarrow> error + string list" where
  "collect_transcripts [] transcripts = Inr transcripts"
| "collect_transcripts (r # rs) transcripts =
     (case segment r of
        Inl e \<Rightarrow> Inl e
      | Inr None \<Rightarrow> collect_transcripts rs transcripts
      | Inr (Some t) \<Rightarrow> collect_transcripts rs (transcripts @ [t]))"

text \<open>
  The recognized segments of a results array, in its order: for each result whose first
  alternative has a string \<^verbatim>\<open>transcript\<close>, that transcript.
\<close>

definition recognized_segments :: "json list \<Rightarrow> string list" where
  "recognized_segments rs =
     List.map_filter (\<lambda>r. case segment r of Inr (Some t) \<Rightarrow> Some t | _ \<Rightarrow> None) rs"

text \<open>The \<^verbatim>\<open>try\<close> block of one attempt, from the outcome of its network call on.\<close>

definition try_body :: "nat \<Rightarrow> fetch_result \<Rightarrow> completion" where
  "try_body attempt res =
     (case res of
        Rejected e \<Rightarrow> Throw e
      | Resolved resp \<Rightarrow>
          if body resp \<noteq> [] \<and> parsed resp = None
          then Throw (Error (''Unexpected non-JSON response from Speech API: '' @ body resp) None)
          else
            let json = (if body resp = [] then None else parsed resp) in
            if \<not> ok resp then
              (case serverMessage json of
                 Inl e \<Rightarrow> Throw e
               | Inr msg \<Rightarrow>
                   let err = Error (''Speech API error (status '' @ string_of_nat (status resp)
                                      @ ''): '' @ msg) None in
                   if status resp = 401 \<or> status resp = 403 \<or> status resp = 402 then Throw err
                   else if attempt = MAX_ATTEMPTS then Throw err
                   else Continue err)
            else
              (case results_of json of
                 None \<Rightarrow>
                   let err = Error (''Speech API returned no transcription results: ''
                                      @ stringify_opt json) None in
                   if attempt = MAX_ATTEMPTS then Throw err else Continue err
               | Some rs \<Rightarrow>
                   (case collect_transcripts rs [] of
                      Inl e \<Rightarrow> Throw e
                    | Inr transcripts \<Rightarrow>
                        let t = trim (join '' '' transcripts) in
                        if t = [] then
                          let err = Error (''Speech API returned empty transcript text: ''
                                             @ stringify_opt json) None in
                          if attempt = MAX_ATTEMPTS then Throw err else Continue err
                        else Return \<lparr>transcription = t\<rparr>)))"

text \<open>The \<^verbatim>\<open>catch\<close> block, for the error the \<^verbatim>\<open>try\<close> block threw.\<close>

definition auth_signature :: "string \<Rightarrow> bool" where
  "auth_signature m =
     (let msg = toLowerCase m in
      str_includes msg ''status 401'' \<or> str_includes msg ''status 403''
      \<or> str_includes msg ''payment required'')"

definition non_retriable_error :: "error \<Rightarrow> error" where
  "non_retriable_error e = Error
     (''Non-retriable error from Google Speech API: '' @ message e
      @ ''. Check API key validity, API & billing enabled, and key restrictions.'') None"

definition exhausted_error :: "error \<Rightarrow> error" where
  "exhausted_error e = Error
     (''Transcription failed after '' @ string_of_nat MAX_ATTEMPTS @ '' attempts. Last error: ''
      @ message e) (Some e)"

definition catch_block :: "nat \<Rightarrow> error \<Rightarrow> completion" where
  "catch_block attempt e =
     (if auth_signature (message e) then Throw (non_retriable_error e)
      else if attempt = MAX_ATTEMPTS then Throw (exhausted_error e)
      else Continue e)"

text \<open>One pass of the loop body after the call: \<^verbatim>\<open>try { ... } catch (err) { ... }\<close>.\<close>

definition attempt_outcome :: "nat \<Rightarrow> fetch_result \<Rightarrow> completion" where
  "attempt_outcome attempt res =
     (case try_body attempt res of
        Throw e \<Rightarrow> catch_block attempt e
      | c \<Rightarrow> c)"

text \<open>
  \<^verbatim>\<open>for (let attempt = 1; attempt <= MAX_ATTEMPTS; attempt++)\<close> and the statement after
  it. Attempt \<open>k\<close> makes the \<open>k\<close>-th network call of the run, whose outcome is
  \<open>svc k\<close>; the last argument is \<^verbatim>\<open>lastError\<close>. The result comes with the events of
  the run.
\<close>

function attempt_loop ::
  "request \<Rightarrow> (nat \<Rightarrow> fetch_result) \<Rightarrow> nat \<Rightarrow> error option \<Rightarrow> (error + flow_output) \<times> event list"
where
  "attempt_loop req svc attempt lastErr =
     (if attempt \<le> MAX_ATTEMPTS then
        let backoff = BASE_BACKOFF_MS * 2 ^ (attempt - 1);
            evs = (if attempt > 1 then [Delay backoff] else []) @ [Fetch req]
        in (case attempt_outcome attempt (svc attempt) of
              Return out \<Rightarrow> (Inr out, evs)
            | Throw e \<Rightarrow> (Inl e, evs)
            | Continue e \<Rightarrow>
                (case attempt_loop req svc (attempt + 1) (Some e) of
                   (r, evs') \<Rightarrow> (r, evs @ evs')))
      else
        (Inl (Error (''Transcription failed. Last error: ''
                       @ (case lastErr of None \<Rightarrow> ''unknown'' | Some e \<Rightarrow> message e)) None),
         []))"
  by pat_completeness auto
termination
  by (relation "measure (\<lambda>(req, svc, attempt, lastErr). MAX_ATTEMPTS + 1 - attempt)") auto

declare attempt_loop.simps [simp del]

text \<open>
  The request body and the key in the URL: \<^verbatim>\<open>languageCode\<close> defaults to
  \<^verbatim>\<open>en-US\<close>, and \<^verbatim>\<open>encoding\<close> is set only when one was inferred.
\<close>

definition build_request :: "string \<Rightarrow> transcribe_input \<Rightarrow> data_uri \<Rightarrow> request" where
  "build_request k input uri =
     \<lparr>url_key = k,
      config = \<lparr>cfg_languageCode = (case languageCode input of None \<Rightarrow> ''en-US'' | Some l \<Rightarrow> l),
                enableAutomaticPunctuation = True,
                model = ''default'',
                encoding = mimeTypeToEncoding (mimeType uri)\<rparr>,
      content = base64 uri\<rparr>"

text \<open>
  The flow; \<open>env\<close> is \<^verbatim>\<open>process.env.GEMINI_API_KEY\<close>.
\<close>

definition transcribeLiveSpeechFlow ::
  "string option \<Rightarrow> (nat \<Rightarrow> fetch_result) \<Rightarrow> transcribe_input \<Rightarrow> (error + flow_output) \<times> event list"
where
  "transcribeLiveSpeechFlow env svc input =
     (case validateDataUri (audioDataUri input) of
        Inl e \<Rightarrow> (Inl e, [])
      | Inr uri \<Rightarrow>
          (case resolveApiKey (apiKey input) env of
             Inl e \<Rightarrow> (Inl e, [])
           | Inr k \<Rightarrow> attempt_loop (build_request k input uri) svc 1 None))"

section \<open>Runs against a scripted service\<close>

text \<open>
  A service that answers the \<open>k\<close>-th call with the \<open>k\<close>-th entry of a script, and
  rejects every call after the script's end.
\<close>

definition mock_service :: "fetch_result list \<Rightarrow> nat \<Rightarrow> fetch_result" where
  "mock_service script k =
     (if 1 \<le> k \<and> k \<le> length script then script ! (k - 1)
      else Rejected (Error ''fetch failed'' None))"

text \<open>The pauses and the number of network calls of a run.\<close>

fun delays_of :: "event list \<Rightarrow> nat list" where
  "delays_of [] = []"
| "delays_of (Delay ms # evs) = ms # delays_of evs"
| "delays_of (Fetch req # evs) = delays_of evs"

fun calls_of :: "event list \<Rightarrow> nat" where
  "calls_of [] = 0"
| "calls_of (Delay ms # evs) = calls_of evs"
| "calls_of (Fetch req # evs) = Suc (calls_of evs)"

definition webm_input :: transcribe_input where
  "webm_input =
     \<lparr>audioDataUri = ''data:audio/webm;base64,GkXfo59ChoEB'', languageCode = None,
      apiKey = Some ''test-key''\<rparr>"

definition webm_request :: request where
  "webm_request =
     \<lparr>url_key = ''test-key'',
      config = \<lparr>cfg_languageCode = ''en-US'', enableAutomaticPunctuation = True,
                model = ''default'', encoding = Some ''WEBM_OPUS''\<rparr>,
      content = ''GkXfo59ChoEB''\<rparr>"

text \<open>
  Responses for the scripts: a body that is the serialisation of a JSON value, and a body
  that is not JSON.
\<close>

definition json_response :: "nat \<Rightarrow> json \<Rightarrow> fetch_result" where
  "json_response st j = Resolved \<lparr>status = st, body = JSON_stringify j, parsed = Some j\<rparr>"

definition text_response :: "nat \<Rightarrow> string \<Rightarrow> fetch_result" where
  "text_response st t = Resolved \<lparr>status = st, body = t, parsed = None\<rparr>"

text \<open>The bodies \<^verbatim>\<open>{ error: { message } }\<close> and
  \<^verbatim>\<open>{ results: [ { alternatives: [ { transcript } ] }, ... ] }\<close> of the service.\<close>

definition error_json :: "string \<Rightarrow> json" where
  "error_json msg = JObj [(''error'', JObj [(''message'', JStr msg)])]"

definition results_json :: "string list \<Rightarrow> json" where
  "results_json ts =
     JObj [(''results'',
            JArr (map (\<lambda>t. JObj [(''alternatives'', JArr [JObj [(''transcript'', JStr t)]])]) ts))]"

section \<open>The audio container encoder\<close>

type_synonym byte = "8 word"

text \<open>
  \<^verbatim>\<open>Buffer.prototype.toString('base64')\<close>: the base64 of RFC 4648, three bytes to four
  characters of the alphabet below, padded with \<^verbatim>\<open>=\<close>.
\<close>

definition b64_alphabet :: string where
  "b64_alphabet = ''ABCDEFGHIJKLMNOPQRSTUVWXYZabcdefghijklmnopqrstuvwxyz0123456789+/''"

definition b64_char :: "nat \<Rightarrow> char" where
  "b64_char i = b64_alphabet ! i"

fun base64_encode :: "byte list \<Rightarrow> string" where
  "base64_encode [] = []"
| "base64_encode [a] =
     (let x = unat a in
      [b64_char (x div 4), b64_char (x mod 4 * 16), CHR ''='', CHR ''=''])"
| "base64_encode [a, b] =
     (let x = unat a; y = unat b in
      [b64_char (x div 4), b64_char (x mod 4 * 16 + y div 16), b64_char (y mod 16 * 4), CHR ''=''])"
| "base64_encode (a # b # c # rest) =
     (let x = unat a; y = unat b; z = unat c in
      [b64_char (x div 4), b64_char (x mod 4 * 16 + y div 16),
       b64_char (y mod 16 * 4 + z div 64), b64_char (z mod 64)] @ base64_encode rest)"

text \<open>Little-endian fields and ASCII tags of a header.\<close>

definition ascii_bytes :: "string \<Rightarrow> byte list" where
  "ascii_bytes s = map (\<lambda>c. of_nat (of_char c)) s"

definition u16le :: "nat \<Rightarrow> byte list" where
  "u16le n = [of_nat (n mod 256), of_nat (n div 256 mod 256)]"

definition u32le :: "nat \<Rightarrow> byte list" where
  "u32le n = [of_nat (n mod 256), of_nat (n div 256 mod 256),
              of_nat (n div 65536 mod 256), of_nat (n div 16777216 mod 256)]"

text \<open>
  Modelled from the spec: the \<^verbatim>\<open>Writer\<close> of the package \<^verbatim>\<open>wav\<close>, which
  \<^verbatim>\<open>toWav\<close> configures and feeds, is not among the sources. The specification says it
  produces a standard container header that declares channel count, sample rate and bit
  depth, followed by the PCM payload. The header here is the canonical 44-byte RIFF/WAVE
  header of linear PCM (format tag 1), with the chunk sizes of the payload.
\<close>

definition wav_header :: "nat \<Rightarrow> nat \<Rightarrow> nat \<Rightarrow> nat \<Rightarrow> byte list" where
  "wav_header channels sampleRate bitDepth dataLength =
     ascii_bytes ''RIFF'' @ u32le (36 + dataLength) @ ascii_bytes ''WAVE''
     @ ascii_bytes ''fmt '' @ u32le 16 @ u16le 1 @ u16le channels @ u32le sampleRate
     @ u32le (sampleRate * channels * bitDepth div 8) @ u16le (channels * bitDepth div 8)
     @ u16le bitDepth
     @ ascii_bytes ''data'' @ u32le dataLength"

text \<open>
  \<^verbatim>\<open>toWav(pcmData, channels = 1, rate = 24000, sampleWidth = 2)\<close>: the writer gets
  \<^verbatim>\<open>bitDepth: sampleWidth * 8\<close>, its chunks are concatenated and the bytes are encoded
  in base64. The flow calls it with the defaults.
\<close>

definition toWav :: "byte list \<Rightarrow> nat \<Rightarrow> nat \<Rightarrow> nat \<Rightarrow> string" where
  "toWav pcmData channels rate sampleWidth =
     base64_encode (wav_header channels rate (sampleWidth * 8) (length pcmData) @ pcmData)"

text \<open>
  The decoder the round trip is stated with: base64 back to bytes, then the header's
  fields and the payload the data chunk declares.
\<close>

fun index_of :: "'a \<Rightarrow> 'a list \<Rightarrow> nat option" where
  "index_of x [] = None"
| "index_of x (y # ys) = (if x = y then Some 0 else map_option Suc (index_of x ys))"

definition b64_value :: "char \<Rightarrow> nat option" where
  "b64_value c = index_of c b64_alphabet"

fun base64_decode :: "string \<Rightarrow> byte list option" where
  "base64_decode [] = Some []"
| "base64_decode (c0 # c1 # c2 # c3 # rest) =
     (case (b64_value c0, b64_value c1) of
        (Some s0, Some s1) \<Rightarrow>
          if rest = [] \<and> c2 = CHR ''='' \<and> c3 = CHR ''=''
          then Some [of_nat (s0 * 4 + s1 div 16)]
          else (case b64_value c2 of
                  None \<Rightarrow> None
                | Some s2 \<Rightarrow>
                    if rest = [] \<and> c3 = CHR ''=''
                    then Some [of_nat (s0 * 4 + s1 div 16), of_nat (s1 mod 16 * 16 + s2 div 4)]
                    else (case b64_value c3 of
                            None \<Rightarrow> None
                          | Some s3 \<Rightarrow>
                              map_option
                                (\<lambda>bs. of_nat (s0 * 4 + s1 div 16)
                                       # of_nat (s1 mod 16 * 16 + s2 div 4)
                                       # of_nat (s2 mod 4 * 64 + s3) # bs)
                                (base64_decode rest)))
      | _ \<Rightarrow> None)"
| "base64_decode _ = None"

primrec le_nat :: "byte list \<Rightarrow> nat" where
  "le_nat [] = 0"
| "le_nat (b # bs) = unat b + 256 * le_nat bs"

definition bytes_at :: "nat \<Rightarrow> nat \<Rightarrow> byte list \<Rightarrow> byte list" where
  "bytes_at off len bs = take len (drop off bs)"

record wav_audio =
  wav_channels :: nat
  wav_sampleRate :: nat
  wav_bitDepth :: nat
  wav_pcm :: "byte list"

definition parse_wav :: "byte list \<Rightarrow> wav_audio option" where
  "parse_wav bs =
     (if 44 \<le> length bs \<and> bytes_at 0 4 bs = ascii_bytes ''RIFF''
         \<and> bytes_at 8 4 bs = ascii_bytes ''WAVE'' \<and> bytes_at 12 4 bs = ascii_bytes ''fmt ''
         \<and> le_nat (bytes_at 16 4 bs) = 16 \<and> le_nat (bytes_at 20 2 bs) = 1
         \<and> bytes_at 36 4 bs = ascii_bytes ''data''
      then Some \<lparr>wav_channels = le_nat (bytes_at 22 2 bs),
                 wav_sampleRate = le_nat (bytes_at 24 4 bs),
                 wav_bitDepth = le_nat (bytes_at 34 2 bs),
                 wav_pcm = take (le_nat (bytes_at 40 4 bs)) (drop 44 bs)\<rparr>
      else None)"

definition decodeContainer :: "string \<Rightarrow> wav_audio option" where
  "decodeContainer s = (case base64_decode s of None \<Rightarrow> None | Some bs \<Rightarrow> parse_wav bs)"

section \<open>Facts about strings\<close>

lemma str_includes_iff: "str_includes s sub \<longleftrightarrow> (\<exists>ps ss. s = ps @ sub @ ss)"
proof (induction s)
  case Nil
  then show ?case by auto
next
  case (Cons c cs)
  show ?case
  proof
    assume "str_includes (c # cs) sub"
    then consider "prefix sub (c # cs)" | "str_includes cs sub" by auto
    then show "\<exists>ps ss. c # cs = ps @ sub @ ss"
    proof cases
      case 1
      then obtain ss where "c # cs = sub @ ss" by (auto simp: prefix_def)
      then have "c # cs = [] @ sub @ ss" by simp
      then show ?thesis by blast
    next
      case 2
      with Cons.IH obtain ps ss where "cs = ps @ sub @ ss" by blast
      then have "c # cs = (c # ps) @ sub @ ss" by simp
      then show ?thesis by blast
    qed
  next
    assume "\<exists>ps ss. c # cs = ps @ sub @ ss"
    then obtain ps ss where eq: "c # cs = ps @ sub @ ss" by blast
    show "str_includes (c # cs) sub"
    proof (cases ps)
      case Nil
      with eq have "prefix sub (c # cs)" by (simp add: prefix_def)
      then show ?thesis by simp
    next
      case (Cons p ps')
      with eq have "cs = ps' @ sub @ ss" by simp
      with Cons.IH have "str_includes cs sub" by blast
      then show ?thesis by simp
    qed
  qed
qed

lemma str_includes_appendI: "str_includes s sub \<Longrightarrow> str_includes (p @ s @ q) sub"
proof -
  assume "str_includes s sub"
  then obtain ps ss where "s = ps @ sub @ ss" by (auto simp: str_includes_iff)
  then have "p @ s @ q = (p @ ps) @ sub @ (ss @ q)" by simp
  then show ?thesis unfolding str_includes_iff by blast
qed

section \<open>Codec inference follows the table\<close>

text \<open>
  C5. The codec hint is a function of the media type alone. It is the lookup the
  specification describes: the first entry of the table webm, wav, mp3, flac, amr, ogg
  whose key occurs in the lower-cased media type, and no hint when none occurs. Media
  types that differ only in case get the same hint. In particular audio/webm gives
  WEBM_OPUS, audio/wav gives WAV and audio/unknown gives no hint; the table's order
  decides when two keys occur.
\<close>

theorem codec_inference:
  "mimeTypeToEncoding m = spec_codec m
   \<and> (toLowerCase m = toLowerCase m' \<longrightarrow> mimeTypeToEncoding m = mimeTypeToEncoding m')
   \<and> mimeTypeToEncoding ''audio/webm'' = Some ''WEBM_OPUS''
   \<and> mimeTypeToEncoding ''audio/wav'' = Some ''WAV''
   \<and> mimeTypeToEncoding ''audio/unknown'' = None
   \<and> mimeTypeToEncoding ''Audio/WAV'' = Some ''WAV''
   \<and> mimeTypeToEncoding ''audio/x-wav-webm'' = Some ''WEBM_OPUS''"
proof -
  have refine: "mimeTypeToEncoding m = spec_codec m"
    by (simp add: mimeTypeToEncoding_def spec_codec_def codec_table_def Let_def)
  have caseless: "toLowerCase m = toLowerCase m' \<longrightarrow> mimeTypeToEncoding m = mimeTypeToEncoding m'"
    by (simp add: mimeTypeToEncoding_def)
  have e1: "mimeTypeToEncoding ''audio/webm'' = Some ''WEBM_OPUS''" by code_simp
  have e2: "mimeTypeToEncoding ''audio/wav'' = Some ''WAV''" by code_simp
  have e3: "mimeTypeToEncoding ''audio/unknown'' = None" by code_simp
  have e4: "mimeTypeToEncoding ''Audio/WAV'' = Some ''WAV''" by code_simp
  have e5: "mimeTypeToEncoding ''audio/x-wav-webm'' = Some ''WEBM_OPUS''" by code_simp
  from refine caseless e1 e2 e3 e4 e5 show ?thesis by blast
qed

theorem codec_inference_witness:
  "toLowerCase ''Audio/FLAC'' = toLowerCase ''audio/flac''
   \<and> mimeTypeToEncoding ''Audio/FLAC'' = mimeTypeToEncoding ''audio/flac''"
proof -
  have h: "toLowerCase ''Audio/FLAC'' = toLowerCase ''audio/flac''" by code_simp
  with codec_inference [of "''Audio/FLAC''" "''audio/flac''"] show ?thesis by blast
qed

section \<open>Validation accepts exactly the data URIs\<close>

lemma strip_prefix_Some: "strip_prefix p s = Some r \<longleftrightarrow> s = p @ r"
  by (auto simp: strip_prefix_def prefix_def)

lemma strip_prefix_append [simp]: "strip_prefix p (p @ r) = Some r"
  by (simp add: strip_prefix_Some)

lemma semicolon_not_mime: "\<not> mime_char CHR '';''"
  by (simp add: mime_char_def is_alnum_def)

lemma validate_only_error: "validateDataUri uri = Inl e \<Longrightarrow> e = invalid_uri_error"
  by (auto simp: validateDataUri_def Let_def split: option.splits if_splits)

lemma validate_accepts:
  assumes "m \<noteq> []" "list_all mime_char m" "p \<noteq> []" "list_all base64_char p"
  shows "validateDataUri (''data:'' @ m @ '';base64,'' @ p) = Inr \<lparr>mimeType = m, base64 = p\<rparr>"
proof -
  have all: "\<forall>x\<in>set m. mime_char x" using assms(2) by (simp add: list_all_iff)
  have rest: "m @ '';base64,'' @ p = m @ CHR '';'' # (''base64,'' @ p)" by simp
  have tw: "takeWhile mime_char (m @ '';base64,'' @ p) = m"
    unfolding rest using all semicolon_not_mime by (simp add: takeWhile_tail)
  have dw: "dropWhile mime_char (m @ '';base64,'' @ p) = '';base64,'' @ p"
    unfolding rest using all semicolon_not_mime by (simp add: dropWhile_append3)
  have sp: "strip_prefix ''data:'' (''data:'' @ m @ '';base64,'' @ p) = Some (m @ '';base64,'' @ p)"
    by (rule strip_prefix_append)
  show ?thesis
    unfolding validateDataUri_def sp
    using assms(1,3,4) by (simp add: tw dw del: append.simps)
qed

lemma validate_sound:
  assumes "validateDataUri uri = Inr d"
  shows "uri = ''data:'' @ mimeType d @ '';base64,'' @ base64 d
         \<and> mimeType d \<noteq> [] \<and> list_all mime_char (mimeType d)
         \<and> base64 d \<noteq> [] \<and> list_all base64_char (base64 d)"
proof -
  from assms obtain r1 g2 where
    r1: "strip_prefix ''data:'' uri = Some r1" and
    g1: "takeWhile mime_char r1 \<noteq> []" and
    g2: "strip_prefix '';base64,'' (dropWhile mime_char r1) = Some g2" and
    ok2: "g2 \<noteq> []" "list_all base64_char g2" and
    d: "d = \<lparr>mimeType = takeWhile mime_char r1, base64 = g2\<rparr>"
    by (auto simp: validateDataUri_def Let_def split: option.splits if_splits)
  from r1 have u: "uri = ''data:'' @ r1" by (simp only: strip_prefix_Some)
  from g2 have dw: "dropWhile mime_char r1 = '';base64,'' @ g2" by (simp only: strip_prefix_Some)
  have "r1 = takeWhile mime_char r1 @ dropWhile mime_char r1" by simp
  with dw have r1eq: "r1 = takeWhile mime_char r1 @ '';base64,'' @ g2" by simp
  have allm: "list_all mime_char (takeWhile mime_char r1)"
    by (auto simp: list_all_iff dest: set_takeWhileD)
  from u r1eq have "uri = ''data:'' @ takeWhile mime_char r1 @ '';base64,'' @ g2" by simp
  with d g1 ok2 allm show ?thesis by simp
qed


text \<open>
  C4. A string \<open>data:<mime>;base64,<payload>\<close>, with a non-empty \<open>mime\<close> over
  the letters, the digits and \<open>/ - + .\<close> and a non-empty \<open>payload\<close> over the letters,
  the digits and \<open>+ / =\<close>, passes validation, which returns exactly that \<open>mime\<close> and
  that \<open>payload\<close>. Every other string fails validation with the invalid-URI error, and
  the flow then fails with that error without a network call or a pause, so without a
  retry.
\<close>

theorem data_uri_validation:
  "(m \<noteq> [] \<and> list_all mime_char m \<and> p \<noteq> [] \<and> list_all base64_char p \<longrightarrow>
      validateDataUri (''data:'' @ m @ '';base64,'' @ p) = Inr \<lparr>mimeType = m, base64 = p\<rparr>)
   \<and> ((\<nexists>m p. audioDataUri input = ''data:'' @ m @ '';base64,'' @ p
              \<and> m \<noteq> [] \<and> list_all mime_char m \<and> p \<noteq> [] \<and> list_all base64_char p) \<longrightarrow>
        validateDataUri (audioDataUri input) = Inl invalid_uri_error
        \<and> transcribeLiveSpeechFlow env svc input = (Inl invalid_uri_error, []))"
proof (intro conjI impI)
  assume "m \<noteq> [] \<and> list_all mime_char m \<and> p \<noteq> [] \<and> list_all base64_char p"
  then show "validateDataUri (''data:'' @ m @ '';base64,'' @ p) = Inr \<lparr>mimeType = m, base64 = p\<rparr>"
    using validate_accepts by blast
next
  assume no: "\<nexists>m p. audioDataUri input = ''data:'' @ m @ '';base64,'' @ p
              \<and> m \<noteq> [] \<and> list_all mime_char m \<and> p \<noteq> [] \<and> list_all base64_char p"
  show v: "validateDataUri (audioDataUri input) = Inl invalid_uri_error"
  proof (cases "validateDataUri (audioDataUri input)")
    case (Inl e)
    then show ?thesis by (simp add: validate_only_error)
  next
    case (Inr d)
    from validate_sound [OF this] no show ?thesis by blast
  qed
  then show "transcribeLiveSpeechFlow env svc input = (Inl invalid_uri_error, [])"
    by (simp add: transcribeLiveSpeechFlow_def)
qed

theorem data_uri_validation_witness:
  "validateDataUri ''data:audio/wav;base64,UklGRg=='' =
     Inr \<lparr>mimeType = ''audio/wav'', base64 = ''UklGRg==''\<rparr>
   \<and> transcribeLiveSpeechFlow (Some ''test-key'') (mock_service [])
        \<lparr>audioDataUri = ''data:audio/wav;base64,'', languageCode = None, apiKey = None\<rparr>
       = (Inl invalid_uri_error, [])"
proof -
  let ?bad = "\<lparr>audioDataUri = ''data:audio/wav;base64,'', languageCode = None, apiKey = None\<rparr>"
  have good: "''audio/wav'' \<noteq> [] \<and> list_all mime_char ''audio/wav''
              \<and> ''UklGRg=='' \<noteq> [] \<and> list_all base64_char ''UklGRg==''"
    by (simp add: mime_char_def base64_char_def is_alnum_def)
  have rejected: "validateDataUri (audioDataUri ?bad) = Inl invalid_uri_error"
    by code_simp
  have none: "\<nexists>m p. audioDataUri ?bad = ''data:'' @ m @ '';base64,'' @ p
              \<and> m \<noteq> [] \<and> list_all mime_char m \<and> p \<noteq> [] \<and> list_all base64_char p"
  proof
    assume "\<exists>m p. audioDataUri ?bad = ''data:'' @ m @ '';base64,'' @ p
              \<and> m \<noteq> [] \<and> list_all mime_char m \<and> p \<noteq> [] \<and> list_all base64_char p"
    then obtain m p where eq: "audioDataUri ?bad = ''data:'' @ m @ '';base64,'' @ p"
      and ok: "m \<noteq> [] \<and> list_all mime_char m \<and> p \<noteq> [] \<and> list_all base64_char p"
      by blast
    from data_uri_validation [of m p] ok
    have "validateDataUri (''data:'' @ m @ '';base64,'' @ p) = Inr \<lparr>mimeType = m, base64 = p\<rparr>"
      by blast
    with eq rejected show False by simp
  qed
  from data_uri_validation [of "''audio/wav''" "''UklGRg==''" ?bad "Some ''test-key''" "mock_service []"]
    good none
  show ?thesis by simp
qed

section \<open>The attempt loop, attempt by attempt\<close>

lemma flow_reaches_loop:
  assumes "validateDataUri (audioDataUri input) = Inr uri"
      and "resolveApiKey (apiKey input) env = Inr k"
  shows "transcribeLiveSpeechFlow env svc input = attempt_loop (build_request k input uri) svc 1 None"
  using assms by (simp add: transcribeLiveSpeechFlow_def)

lemma loop_first:
  "attempt_loop req svc 1 lastErr =
     (case attempt_outcome 1 (svc 1) of
        Return out \<Rightarrow> (Inr out, [Fetch req])
      | Throw e \<Rightarrow> (Inl e, [Fetch req])
      | Continue e \<Rightarrow> (case attempt_loop req svc 2 (Some e) of (r, evs) \<Rightarrow> (r, Fetch req # evs)))"
  by (subst attempt_loop.simps) (simp add: MAX_ATTEMPTS_def numeral_2_eq_2 split: completion.splits)

lemma loop_second:
  "attempt_loop req svc 2 lastErr =
     (case attempt_outcome 2 (svc 2) of
        Return out \<Rightarrow> (Inr out, [Delay 1000, Fetch req])
      | Throw e \<Rightarrow> (Inl e, [Delay 1000, Fetch req])
      | Continue e \<Rightarrow>
          (case attempt_loop req svc 3 (Some e) of (r, evs) \<Rightarrow> (r, Delay 1000 # Fetch req # evs)))"
  by (subst attempt_loop.simps)
     (simp add: MAX_ATTEMPTS_def BASE_BACKOFF_MS_def numeral_3_eq_3 split: completion.splits)

lemma loop_after_last:
  "attempt_loop req svc 4 lastErr =
     (Inl (Error (''Transcription failed. Last error: ''
                    @ (case lastErr of None \<Rightarrow> ''unknown'' | Some e \<Rightarrow> message e)) None), [])"
  by (subst attempt_loop.simps) (simp add: MAX_ATTEMPTS_def)

lemma try_body_last_never_continues: "try_body MAX_ATTEMPTS res \<noteq> Continue e"
  by (simp add: try_body_def Let_def split: fetch_result.splits option.splits sum.splits)

lemma last_attempt_never_continues: "attempt_outcome MAX_ATTEMPTS res \<noteq> Continue e"
  using try_body_last_never_continues [of res]
  by (auto simp: attempt_outcome_def catch_block_def split: completion.splits)

lemma loop_third:
  "attempt_loop req svc 3 lastErr =
     (case attempt_outcome 3 (svc 3) of
        Return out \<Rightarrow> (Inr out, [Delay 2000, Fetch req])
      | Throw e \<Rightarrow> (Inl e, [Delay 2000, Fetch req])
      | Continue e \<Rightarrow>
          (Inl (Error (''Transcription failed. Last error: '' @ message e) None),
           [Delay 2000, Fetch req]))"
  by (subst attempt_loop.simps)
     (simp add: MAX_ATTEMPTS_def BASE_BACKOFF_MS_def loop_after_last split: completion.splits)


section \<open>Authentication failures\<close>

lemma toLowerCase_append: "toLowerCase (a @ b) = toLowerCase a @ toLowerCase b"
  by (simp add: toLowerCase_def)

lemma str_includes_prefixI: "str_includes a sub \<Longrightarrow> str_includes (a @ b) sub"
  using str_includes_appendI [of a sub "[]" b] by simp

lemma status_401_signature: "auth_signature (''Speech API error (status 401): '' @ m)"
proof -
  have "str_includes (toLowerCase ''Speech API error (status 401): '') ''status 401''"
    by code_simp
  then have "str_includes (toLowerCase (''Speech API error (status 401): '' @ m)) ''status 401''"
    unfolding toLowerCase_append by (rule str_includes_prefixI)
  then show ?thesis by (simp add: auth_signature_def Let_def)
qed

lemma string_of_nat_401: "string_of_nat 401 = ''401''"
  by code_simp

lemma not_ok_401: "status resp = 401 \<Longrightarrow> \<not> ok resp"
  by (simp add: ok_def)

lemma catch_block_signature:
  "auth_signature (message e) \<Longrightarrow> catch_block n e = Throw (non_retriable_error e)"
  by (simp add: catch_block_def)

lemma try_body_401:
  assumes "status resp = 401" and "body resp = [] \<or> parsed resp \<noteq> None"
      and "serverMessage (if body resp = [] then None else parsed resp) = Inr msg"
  shows "try_body n (Resolved resp) =
           Throw (Error (''Speech API error (status 401): '' @ msg) None)"
  using assms not_ok_401 [of resp]
  by (auto simp add: try_body_def Let_def string_of_nat_401)

text \<open>
  C6, as the code has it. When the first network call returns status 401 with a body
  that is empty or parses as JSON, and the conversion of the server's message to text
  does not throw (the message is not an object with an own \<open>toString\<close> property, nor an
  array holding one), the flow fails at once with the non-retriable error built from
  the service's error, after exactly one network call and no pause.
\<close>

theorem unauthorized_fails_at_once:
  assumes "validateDataUri (audioDataUri input) = Inr uri"
      and "resolveApiKey (apiKey input) env = Inr k"
      and "svc 1 = Resolved resp"
      and "status resp = 401"
      and "body resp = [] \<or> parsed resp \<noteq> None"
      and "serverMessage (if body resp = [] then None else parsed resp) = Inr msg"
  shows "transcribeLiveSpeechFlow env svc input =
           (Inl (non_retriable_error (Error (''Speech API error (status 401): '' @ msg) None)),
            [Fetch (build_request k input uri)])"
proof -
  let ?err = "Error (''Speech API error (status 401): '' @ msg) None"
  have "try_body 1 (Resolved resp) = Throw ?err"
    using assms(4-6) by (rule try_body_401)
  then have "try_body 1 (svc 1) = Throw ?err"
    by (simp only: assms(3))
  moreover have "auth_signature (message ?err)"
    by (simp only: error.sel status_401_signature)
  then have "catch_block 1 ?err = Throw (non_retriable_error ?err)"
    by (rule catch_block_signature)
  ultimately have "attempt_outcome 1 (svc 1) = Throw (non_retriable_error ?err)"
    by (simp only: attempt_outcome_def completion.case)
  then show ?thesis
    by (simp only: flow_reaches_loop [OF assms(1,2)] loop_first completion.case)
qed

lemma webm_input_valid:
  "validateDataUri (audioDataUri webm_input) = Inr \<lparr>mimeType = ''audio/webm'', base64 = ''GkXfo59ChoEB''\<rparr>"
  by code_simp

lemma webm_input_key: "resolveApiKey (apiKey webm_input) None = Inr ''test-key''"
  by code_simp

lemma webm_request_built:
  "build_request ''test-key'' webm_input \<lparr>mimeType = ''audio/webm'', base64 = ''GkXfo59ChoEB''\<rparr>
     = webm_request"
  by code_simp

theorem unauthorized_fails_at_once_witness:
  "transcribeLiveSpeechFlow None
     (mock_service [json_response 401 (error_json ''API key not valid'')]) webm_input =
   (Inl (non_retriable_error (Error ''Speech API error (status 401): API key not valid'' None)),
    [Fetch webm_request])"
proof -
  let ?resp = "\<lparr>status = 401, body = JSON_stringify (error_json ''API key not valid''),
                parsed = Some (error_json ''API key not valid'')\<rparr>"
  have first: "mock_service [json_response 401 (error_json ''API key not valid'')] 1 = Resolved ?resp"
    by (simp add: mock_service_def json_response_def)
  have st: "status ?resp = 401" by simp
  have js: "body ?resp = [] \<or> parsed ?resp \<noteq> None" by simp
  have msg: "serverMessage (if body ?resp = [] then None else parsed ?resp) = Inr ''API key not valid''"
    by code_simp
  note run = unauthorized_fails_at_once
         [where svc = "mock_service [json_response 401 (error_json ''API key not valid'')]"
            and resp = ?resp, OF webm_input_valid webm_input_key first st js msg]
  show ?thesis by (rule run [unfolded webm_request_built append.simps])
qed

text \<open>
  The claim as written fails in two ways. A 401 whose body is not JSON is retried: the
  first run below goes on to a second call and succeeds. So is a 401 whose JSON message
  is an object with an own \<open>toString\<close> property, since building the error text throws a
  TypeError that carries no signature: the second run does the same.
\<close>

theorem unauthorized_is_retried:
  "transcribeLiveSpeechFlow None
     (mock_service [text_response 401 ''Unauthorized'', json_response 200 (results_json [''hello''])])
     webm_input =
   (Inr \<lparr>transcription = ''hello''\<rparr>, [Fetch webm_request, Delay 1000, Fetch webm_request])
   \<and> transcribeLiveSpeechFlow None
     (mock_service
        [json_response 401
           (JObj [(''error'', JObj [(''message'', JObj [(''toString'', JNum (Finite ''1''))])])]),
         json_response 200 (results_json [''hello''])])
     webm_input =
   (Inr \<lparr>transcription = ''hello''\<rparr>, [Fetch webm_request, Delay 1000, Fetch webm_request])"
  by code_simp

text \<open>
  C1. The code does not do what the claim and its own comment say: a 402 whose message
  lacks the words "payment required" is thrown as non-retriable, caught, and retried.
  Three such responses give three network calls and the error of exhausted attempts.
\<close>

theorem payment_required_402_is_retried:
  "transcribeLiveSpeechFlow None
     (mock_service [json_response 402 (error_json ''Billing account disabled''),
                    json_response 402 (error_json ''Billing account disabled''),
                    json_response 402 (error_json ''Billing account disabled'')])
     webm_input =
   (Inl (exhausted_error (Error ''Speech API error (status 402): Billing account disabled'' None)),
    [Fetch webm_request, Delay 1000, Fetch webm_request, Delay 2000, Fetch webm_request])"
  by code_simp

section \<open>Backoff\<close>

lemma third_attempt_events: "snd (attempt_loop req svc 3 lastErr) = [Delay 2000, Fetch req]"
  by (simp add: loop_third split: completion.splits)

text \<open>
  C2, as the code has it. In a run where attempts 1 and 2 both end in a retry, the flow
  makes its first call with no pause before it, pauses 1000 ms before attempt 2 and
  2000 ms before attempt 3: the pause before attempt \<open>n\<close> is \<open>500 * 2 ^ (n - 1)\<close>.
\<close>

theorem backoff_before_retries:
  assumes "validateDataUri (audioDataUri input) = Inr uri"
      and "resolveApiKey (apiKey input) env = Inr k"
      and "attempt_outcome 1 (svc 1) = Continue e1"
      and "attempt_outcome 2 (svc 2) = Continue e2"
  shows "snd (transcribeLiveSpeechFlow env svc input) =
           [Fetch (build_request k input uri),
            Delay 1000, Fetch (build_request k input uri),
            Delay 2000, Fetch (build_request k input uri)]
         \<and> delays_of (snd (transcribeLiveSpeechFlow env svc input)) = [1000, 2000]"
proof -
  let ?req = "build_request k input uri"
  have flow: "transcribeLiveSpeechFlow env svc input = attempt_loop ?req svc 1 None"
    by (rule flow_reaches_loop [OF assms(1,2)])
  have l1: "attempt_loop ?req svc 1 None =
              (case attempt_loop ?req svc 2 (Some e1) of (r, evs) \<Rightarrow> (r, Fetch ?req # evs))"
    by (simp only: loop_first assms(3) completion.case)
  have l2: "attempt_loop ?req svc 2 (Some e1) =
              (case attempt_loop ?req svc 3 (Some e2) of
                 (r, evs) \<Rightarrow> (r, Delay 1000 # Fetch ?req # evs))"
    by (simp only: loop_second assms(4) completion.case)
  have "snd (transcribeLiveSpeechFlow env svc input) =
          Fetch ?req # Delay 1000 # Fetch ?req # snd (attempt_loop ?req svc 3 (Some e2))"
    by (simp only: flow l1 l2 case_prod_beta snd_conv)
  then have "snd (transcribeLiveSpeechFlow env svc input) =
               [Fetch ?req, Delay 1000, Fetch ?req, Delay 2000, Fetch ?req]"
    by (simp only: third_attempt_events)
  then show ?thesis by simp
qed

theorem backoff_before_retries_witness:
  "snd (transcribeLiveSpeechFlow None
          (mock_service [json_response 503 (error_json ''Backend unavailable''),
                         text_response 502 ''Bad Gateway'',
                         json_response 200 (results_json [''hello''])])
          webm_input) =
     [Fetch webm_request, Delay 1000, Fetch webm_request, Delay 2000, Fetch webm_request]
   \<and> delays_of (snd (transcribeLiveSpeechFlow None
          (mock_service [json_response 503 (error_json ''Backend unavailable''),
                         text_response 502 ''Bad Gateway'',
                         json_response 200 (results_json [''hello''])])
          webm_input)) = [1000, 2000]"
proof -
  let ?svc = "mock_service [json_response 503 (error_json ''Backend unavailable''),
                            text_response 502 ''Bad Gateway'',
                            json_response 200 (results_json [''hello''])]"
  have a1: "attempt_outcome 1 (?svc 1) =
              Continue (Error ''Speech API error (status 503): Backend unavailable'' None)"
    by code_simp
  have a2: "attempt_outcome 2 (?svc 2) =
              Continue (Error ''Unexpected non-JSON response from Speech API: Bad Gateway'' None)"
    by code_simp
  note run = backoff_before_retries [where svc = ?svc, OF webm_input_valid webm_input_key a1 a2]
  show ?thesis by (rule run [unfolded webm_request_built])
qed

text \<open>
  The claim as written fails on the run of the specification's own test: two responses
  with status 500, then a success. The pauses are 1000 ms and 2000 ms, not 500 ms and
  1000 ms.
\<close>

theorem backoff_is_not_500_1000:
  "fst (transcribeLiveSpeechFlow None
          (mock_service [json_response 500 (error_json ''Internal error''),
                         json_response 500 (error_json ''Internal error''),
                         json_response 200 (results_json [''hello''])])
          webm_input) = Inr \<lparr>transcription = ''hello''\<rparr>
   \<and> delays_of (snd (transcribeLiveSpeechFlow None
          (mock_service [json_response 500 (error_json ''Internal error''),
                         json_response 500 (error_json ''Internal error''),
                         json_response 200 (results_json [''hello''])])
          webm_input)) = [1000, 2000]
   \<and> delays_of (snd (transcribeLiveSpeechFlow None
          (mock_service [json_response 500 (error_json ''Internal error''),
                         json_response 500 (error_json ''Internal error''),
                         json_response 200 (results_json [''hello''])])
          webm_input)) \<noteq> [500, 1000]"
  by code_simp

section \<open>Credential resolution\<close>



section \<open>Bodies that are not JSON\<close>

lemma try_body_non_json:
  "body resp \<noteq> [] \<Longrightarrow> parsed resp = None \<Longrightarrow>
   try_body n (Resolved resp) =
     Throw (Error (''Unexpected non-JSON response from Speech API: '' @ body resp) None)"
  by (simp add: try_body_def)

lemma second_attempt_events:
  "\<exists>r evs. attempt_loop req svc 2 lastErr = (r, Delay 1000 # Fetch req # evs)"
proof (cases "attempt_outcome 2 (svc 2)")
  case (Continue e)
  obtain r evs where "attempt_loop req svc 3 (Some e) = (r, evs)"
    by (cases "attempt_loop req svc 3 (Some e)")
  with Continue show ?thesis by (simp add: loop_second)
qed (simp_all add: loop_second)

text \<open>
  C3, as the code has it. A response with a non-empty body that is not JSON makes its
  attempt fail with the error "Unexpected non-JSON response", and the catch block treats
  that error like any other: the flow fails at once only when the text carries an
  auth or payment signature; otherwise attempts 1 and 2 are followed by a further attempt
  and attempt 3 ends the flow with the error of exhausted attempts. So after such a first
  response without a signature, the flow pauses and makes a second network call.
\<close>

theorem non_json_body_is_retried:
  "(body resp \<noteq> [] \<and> parsed resp = None \<longrightarrow>
      attempt_outcome n (Resolved resp) =
        (let e = Error (''Unexpected non-JSON response from Speech API: '' @ body resp) None in
         if auth_signature (message e) then Throw (non_retriable_error e)
         else if n = MAX_ATTEMPTS then Throw (exhausted_error e)
         else Continue e))
   \<and> (validateDataUri (audioDataUri input) = Inr uri \<and> resolveApiKey (apiKey input) env = Inr k
        \<and> svc 1 = Resolved resp \<and> body resp \<noteq> [] \<and> parsed resp = None
        \<and> \<not> auth_signature (''Unexpected non-JSON response from Speech API: '' @ body resp) \<longrightarrow>
        (\<exists>r evs. transcribeLiveSpeechFlow env svc input =
                    (r, Fetch (build_request k input uri) # Delay 1000
                        # Fetch (build_request k input uri) # evs)))"
proof (intro conjI impI)
  let ?e = "Error (''Unexpected non-JSON response from Speech API: '' @ body resp) None"
  have outcome: "attempt_outcome m (Resolved resp) =
          (if auth_signature (message ?e) then Throw (non_retriable_error ?e)
           else if m = MAX_ATTEMPTS then Throw (exhausted_error ?e)
           else Continue ?e)"
    if "body resp \<noteq> [] \<and> parsed resp = None" for m
  proof -
    from that have "try_body m (Resolved resp) = Throw ?e"
      using try_body_non_json by blast
    then show ?thesis
      by (simp only: attempt_outcome_def completion.case catch_block_def)
  qed
  {
    assume "body resp \<noteq> [] \<and> parsed resp = None"
    then have "attempt_outcome n (Resolved resp) =
          (if auth_signature (message ?e) then Throw (non_retriable_error ?e)
           else if n = MAX_ATTEMPTS then Throw (exhausted_error ?e)
           else Continue ?e)"
      by (rule outcome)
    then show "attempt_outcome n (Resolved resp) =
        (let e = ?e in
         if auth_signature (message e) then Throw (non_retriable_error e)
         else if n = MAX_ATTEMPTS then Throw (exhausted_error e)
         else Continue e)"
      by (simp only: Let_def)
  }
  {
    let ?req = "build_request k input uri"
    assume h: "validateDataUri (audioDataUri input) = Inr uri \<and> resolveApiKey (apiKey input) env = Inr k
        \<and> svc 1 = Resolved resp \<and> body resp \<noteq> [] \<and> parsed resp = None
        \<and> \<not> auth_signature (''Unexpected non-JSON response from Speech API: '' @ body resp)"
    then have "attempt_outcome 1 (svc 1) = Continue ?e"
      by (simp add: outcome MAX_ATTEMPTS_def)
    then have "attempt_loop ?req svc 1 None =
                 (case attempt_loop ?req svc 2 (Some ?e) of (r, evs) \<Rightarrow> (r, Fetch ?req # evs))"
      by (simp only: loop_first completion.case)
    moreover obtain r evs where "attempt_loop ?req svc 2 (Some ?e) = (r, Delay 1000 # Fetch ?req # evs)"
      using second_attempt_events by blast
    ultimately have "attempt_loop ?req svc 1 None = (r, Fetch ?req # Delay 1000 # Fetch ?req # evs)"
      by simp
    with h show "\<exists>r evs. transcribeLiveSpeechFlow env svc input =
                    (r, Fetch ?req # Delay 1000 # Fetch ?req # evs)"
      by (auto simp: flow_reaches_loop)
  }
qed


theorem non_json_body_is_retried_witness:
  "attempt_outcome 3 (text_response 503 ''<html>upstream error</html>'') =
     Throw (exhausted_error
              (Error ''Unexpected non-JSON response from Speech API: <html>upstream error</html>'' None))
   \<and> (\<exists>r evs. transcribeLiveSpeechFlow None
                   (mock_service [text_response 503 ''<html>upstream error</html>'']) webm_input =
                 (r, Fetch webm_request # Delay 1000 # Fetch webm_request # evs))"
proof -
  let ?resp = "\<lparr>status = 503, body = ''<html>upstream error</html>'', parsed = None\<rparr>"
  let ?svc = "mock_service [text_response 503 ''<html>upstream error</html>'']"
  have shape: "body ?resp \<noteq> [] \<and> parsed ?resp = None" by simp
  have first: "?svc 1 = Resolved ?resp"
    by (simp add: mock_service_def text_response_def)
  have nosig: "\<not> auth_signature (''Unexpected non-JSON response from Speech API: '' @ body ?resp)"
    by code_simp
  have nosig': "\<not> auth_signature
                   (message (Error (''Unexpected non-JSON response from Speech API: '' @ body ?resp) None))"
    using nosig by simp
  note both = non_json_body_is_retried
                [where resp = ?resp and n = 3 and input = webm_input and env = None
                   and uri = "\<lparr>mimeType = ''audio/webm'', base64 = ''GkXfo59ChoEB''\<rparr>"
                   and k = "''test-key''" and svc = ?svc]
  from both shape have
    "attempt_outcome 3 (Resolved ?resp) =
       (let e = Error (''Unexpected non-JSON response from Speech API: '' @ body ?resp) None in
         if auth_signature (message e) then Throw (non_retriable_error e)
         else if 3 = MAX_ATTEMPTS then Throw (exhausted_error e)
         else Continue e)"
    by blast
  with nosig' have one: "attempt_outcome 3 (text_response 503 ''<html>upstream error</html>'') =
     Throw (exhausted_error
              (Error ''Unexpected non-JSON response from Speech API: <html>upstream error</html>'' None))"
    by (simp add: Let_def MAX_ATTEMPTS_def text_response_def)
  from both shape first nosig webm_input_valid webm_input_key have
    "\<exists>r evs. transcribeLiveSpeechFlow None ?svc webm_input =
        (r, Fetch (build_request ''test-key'' webm_input
                     \<lparr>mimeType = ''audio/webm'', base64 = ''GkXfo59ChoEB''\<rparr>) # Delay 1000
            # Fetch (build_request ''test-key'' webm_input
                       \<lparr>mimeType = ''audio/webm'', base64 = ''GkXfo59ChoEB''\<rparr>) # evs)"
    by blast
  then have two: "\<exists>r evs. transcribeLiveSpeechFlow None ?svc webm_input =
                 (r, Fetch webm_request # Delay 1000 # Fetch webm_request # evs)"
    by (simp only: webm_request_built)
  from one two show ?thesis by (rule conjI)
qed

text \<open>
  The claim as written fails: after a body that is not JSON the run below makes a second
  attempt, which succeeds.
\<close>

theorem non_json_body_then_success:
  "transcribeLiveSpeechFlow None
     (mock_service [text_response 503 ''<html>upstream error</html>'',
                    json_response 200 (results_json [''hello''])])
     webm_input =
   (Inr \<lparr>transcription = ''hello''\<rparr>, [Fetch webm_request, Delay 1000, Fetch webm_request])"
  by code_simp

section \<open>Responses without results\<close>

lemma get_prop_truthy: "get_prop j k = Some v \<Longrightarrow> truthy j"
  by (cases j) simp_all

lemma ok_200: "status resp = 200 \<Longrightarrow> ok resp"
  by (simp add: ok_def)

lemma try_body_no_results:
  assumes "status resp = 200" and "body resp \<noteq> []" and "parsed resp = Some j"
      and "get_prop j ''results'' = Some (JArr [])"
  shows "try_body n (Resolved resp) =
           (if n = MAX_ATTEMPTS
            then Throw (Error (''Speech API returned no transcription results: '' @ JSON_stringify j) None)
            else Continue (Error (''Speech API returned no transcription results: '' @ JSON_stringify j) None))"
proof -
  have "results_of (Some j) = None"
    using assms(4) get_prop_truthy [OF assms(4)] by (simp add: results_of_def)
  then show ?thesis
    using assms(1-3) ok_200 [OF assms(1)]
    by (simp add: try_body_def Let_def stringify_opt_def)
qed

lemma attempt_outcome_no_results:
  assumes "status resp = 200" and "body resp \<noteq> []" and "parsed resp = Some j"
      and "get_prop j ''results'' = Some (JArr [])" and "n \<noteq> MAX_ATTEMPTS"
  shows "attempt_outcome n (Resolved resp) =
           Continue (Error (''Speech API returned no transcription results: '' @ JSON_stringify j) None)"
  using try_body_no_results [OF assms(1-4), of n] assms(5)
  by (simp only: attempt_outcome_def if_False completion.case)

text \<open>
  C7, as the code has it. When each of the three attempts receives status 200 with a
  JSON body whose \<open>results\<close> is the empty array, and the serialisation of the third body
  carries no auth or payment signature, the flow makes exactly three network calls and
  then fails with the error of exhausted attempts, whose \<open>lastError\<close> is the error of the
  third attempt.
\<close>

theorem empty_results_exhaust:
  assumes "validateDataUri (audioDataUri input) = Inr uri"
      and "resolveApiKey (apiKey input) env = Inr k"
      and "svc 1 = Resolved r1" "status r1 = 200" "body r1 \<noteq> []" "parsed r1 = Some j1"
          "get_prop j1 ''results'' = Some (JArr [])"
      and "svc 2 = Resolved r2" "status r2 = 200" "body r2 \<noteq> []" "parsed r2 = Some j2"
          "get_prop j2 ''results'' = Some (JArr [])"
      and "svc 3 = Resolved r3" "status r3 = 200" "body r3 \<noteq> []" "parsed r3 = Some j3"
          "get_prop j3 ''results'' = Some (JArr [])"
      and "\<not> auth_signature (''Speech API returned no transcription results: '' @ JSON_stringify j3)"
  shows "transcribeLiveSpeechFlow env svc input =
           (Inl (exhausted_error
                   (Error (''Speech API returned no transcription results: '' @ JSON_stringify j3) None)),
            [Fetch (build_request k input uri),
             Delay 1000, Fetch (build_request k input uri),
             Delay 2000, Fetch (build_request k input uri)])
         \<and> calls_of (snd (transcribeLiveSpeechFlow env svc input)) = 3"
proof -
  let ?req = "build_request k input uri"
  let ?e = "\<lambda>j. Error (''Speech API returned no transcription results: '' @ JSON_stringify j) None"
  have a1: "attempt_outcome 1 (svc 1) = Continue (?e j1)"
    unfolding assms(3)
    by (rule attempt_outcome_no_results [OF assms(4-7)]) (simp add: MAX_ATTEMPTS_def)
  have a2: "attempt_outcome 2 (svc 2) = Continue (?e j2)"
    unfolding assms(8)
    by (rule attempt_outcome_no_results [OF assms(9-12)]) (simp add: MAX_ATTEMPTS_def)
  have "try_body 3 (svc 3) = Throw (?e j3)"
    unfolding assms(13)
    using try_body_no_results [OF assms(14-17), of 3] by (simp add: MAX_ATTEMPTS_def)
  moreover have "catch_block 3 (?e j3) = Throw (exhausted_error (?e j3))"
    using assms(18) by (simp add: catch_block_def MAX_ATTEMPTS_def)
  ultimately have a3: "attempt_outcome 3 (svc 3) = Throw (exhausted_error (?e j3))"
    by (simp only: attempt_outcome_def completion.case)
  have l3: "attempt_loop ?req svc 3 (Some (?e j2)) =
              (Inl (exhausted_error (?e j3)), [Delay 2000, Fetch ?req])"
    by (simp only: loop_third a3 completion.case)
  have l2: "attempt_loop ?req svc 2 (Some (?e j1)) =
              (Inl (exhausted_error (?e j3)), [Delay 1000, Fetch ?req, Delay 2000, Fetch ?req])"
    by (simp only: loop_second a2 completion.case l3 prod.case)
  have l1: "attempt_loop ?req svc 1 None =
              (Inl (exhausted_error (?e j3)),
               [Fetch ?req, Delay 1000, Fetch ?req, Delay 2000, Fetch ?req])"
    by (simp only: loop_first a1 completion.case l2 prod.case)
  have flow: "transcribeLiveSpeechFlow env svc input = attempt_loop ?req svc 1 None"
    by (rule flow_reaches_loop [OF assms(1,2)])
  show ?thesis unfolding flow l1 by simp
qed


theorem empty_results_exhaust_witness:
  "transcribeLiveSpeechFlow None
     (mock_service [json_response 200 (results_json []), json_response 200 (results_json []),
                    json_response 200 (results_json [])])
     webm_input =
   (Inl (exhausted_error
           (Error (''Speech API returned no transcription results: ''
                     @ JSON_stringify (results_json [])) None)),
    [Fetch webm_request, Delay 1000, Fetch webm_request, Delay 2000, Fetch webm_request])
   \<and> calls_of (snd (transcribeLiveSpeechFlow None
     (mock_service [json_response 200 (results_json []), json_response 200 (results_json []),
                    json_response 200 (results_json [])])
     webm_input)) = 3"
proof -
  let ?j = "results_json []"
  let ?r = "\<lparr>status = 200, body = JSON_stringify ?j, parsed = Some ?j\<rparr>"
  let ?svc = "mock_service [json_response 200 ?j, json_response 200 ?j, json_response 200 ?j]"
  have s1: "?svc 1 = Resolved ?r" and s2: "?svc 2 = Resolved ?r" and s3: "?svc 3 = Resolved ?r"
    by (simp_all add: mock_service_def json_response_def)
  have st: "status ?r = 200" by simp
  have bd: "body ?r \<noteq> []" by code_simp
  have pj: "parsed ?r = Some ?j" by simp
  have gp: "get_prop ?j ''results'' = Some (JArr [])" by (simp add: results_json_def)
  have nosig: "\<not> auth_signature
                   (''Speech API returned no transcription results: '' @ JSON_stringify ?j)"
    by code_simp
  note run = empty_results_exhaust
               [where svc = ?svc, OF webm_input_valid webm_input_key
                  s1 st bd pj gp s2 st bd pj gp s3 st bd pj gp nosig]
  show ?thesis by (rule run [unfolded webm_request_built])
qed

text \<open>
  The claim as written fails: when the body with the empty \<open>results\<close> array has a further
  field whose text carries a signature, the third attempt ends the flow with the
  non-retriable error, which has no \<open>lastError\<close>, instead of the error of exhausted
  attempts.
\<close>

theorem empty_results_with_signature:
  "transcribeLiveSpeechFlow None
     (mock_service
        [json_response 200 (JObj [(''results'', JArr []), (''note'', JStr ''payment required'')]),
         json_response 200 (JObj [(''results'', JArr []), (''note'', JStr ''payment required'')]),
         json_response 200 (JObj [(''results'', JArr []), (''note'', JStr ''payment required'')])])
     webm_input =
   (Inl (non_retriable_error
           (Error (''Speech API returned no transcription results: ''
                     @ JSON_stringify (JObj [(''results'', JArr []),
                                             (''note'', JStr ''payment required'')])) None)),
    [Fetch webm_request, Delay 1000, Fetch webm_request, Delay 2000, Fetch webm_request])
   \<and> non_retriable_error
           (Error (''Speech API returned no transcription results: ''
                     @ JSON_stringify (JObj [(''results'', JArr []),
                                             (''note'', JStr ''payment required'')])) None)
       \<noteq> exhausted_error
           (Error (''Speech API returned no transcription results: ''
                     @ JSON_stringify (JObj [(''results'', JArr []),
                                             (''note'', JStr ''payment required'')])) None)"
  by code_simp

section \<open>Success\<close>

lemma collect_transcripts_segments:
  "collect_transcripts rs acc = Inr ts \<Longrightarrow> ts = acc @ recognized_segments rs"
proof (induction rs arbitrary: acc)
  case Nil
  then show ?case by (simp add: recognized_segments_def List.map_filter_simps)
next
  case (Cons r rs)
  show ?case
  proof (cases "segment r")
    case (Inl e)
    with Cons.prems show ?thesis by simp
  next
    case (Inr t)
    show ?thesis
    proof (cases t)
      case None
      with Inr Cons.prems have "collect_transcripts rs acc = Inr ts" by simp
      from Cons.IH [OF this] Inr None show ?thesis
        by (simp add: recognized_segments_def List.map_filter_simps)
    next
      case (Some x)
      with Inr Cons.prems have "collect_transcripts rs (acc @ [x]) = Inr ts" by simp
      from Cons.IH [OF this] Inr Some show ?thesis
        by (simp add: recognized_segments_def List.map_filter_simps)
    qed
  qed
qed

lemma results_of_Some:
  "results_of json = Some rs \<Longrightarrow> \<exists>j. json = Some j \<and> get_prop j ''results'' = Some (JArr rs)"
  by (auto simp: results_of_def split: option.splits if_splits json.splits)

lemma try_body_Return:
  assumes "try_body n res = Return out"
  shows "\<exists>resp j rs. res = Resolved resp \<and> ok resp \<and> body resp \<noteq> [] \<and> parsed resp = Some j
           \<and> get_prop j ''results'' = Some (JArr rs)
           \<and> transcription out = trim (join '' '' (recognized_segments rs))
           \<and> transcription out \<noteq> []"
proof (cases res)
  case (Rejected e)
  with assms show ?thesis by (simp add: try_body_def)
next
  case (Resolved resp)
  let ?json = "if body resp = [] then None else parsed resp"
  from assms Resolved have okr: "ok resp"
    by (auto simp: try_body_def Let_def split: if_splits sum.splits)
  from assms Resolved okr obtain rs where rs: "results_of ?json = Some rs"
    by (cases "results_of ?json") (auto simp: try_body_def Let_def split: if_splits)
  from assms Resolved okr rs obtain ts where ts: "collect_transcripts rs [] = Inr ts"
    by (cases "collect_transcripts rs []") (auto simp: try_body_def Let_def split: if_splits)
  from assms Resolved okr rs ts have out: "out = \<lparr>transcription = trim (join '' '' ts)\<rparr>"
    and ne: "trim (join '' '' ts) \<noteq> []"
    by (auto simp: try_body_def Let_def split: if_splits)
  from results_of_Some [OF rs] obtain j where j: "?json = Some j"
    and g: "get_prop j ''results'' = Some (JArr rs)" by blast
  from j have b: "body resp \<noteq> []" and p: "parsed resp = Some j"
    by (auto split: if_splits)
  from collect_transcripts_segments [OF ts] have "ts = recognized_segments rs" by simp
  with Resolved okr b p g out ne show ?thesis by simp
qed

lemma attempt_outcome_Return:
  "attempt_outcome n res = Return out \<Longrightarrow> try_body n res = Return out"
  by (auto simp: attempt_outcome_def catch_block_def split: completion.splits if_splits)

lemma loop_third_success:
  "attempt_loop req svc 3 l = (Inr out, evs) \<Longrightarrow> attempt_outcome 3 (svc 3) = Return out"
  by (simp add: loop_third split: completion.splits)

lemma loop_second_success:
  assumes "attempt_loop req svc 2 l = (Inr out, evs)"
  shows "attempt_outcome 2 (svc 2) = Return out \<or> attempt_outcome 3 (svc 3) = Return out"
proof (cases "attempt_outcome 2 (svc 2)")
  case (Continue e)
  obtain r evs' where l3: "attempt_loop req svc 3 (Some e) = (r, evs')"
    by (cases "attempt_loop req svc 3 (Some e)")
  with assms Continue have "r = Inr out" by (simp add: loop_second)
  with l3 loop_third_success show ?thesis by blast
qed (use assms in \<open>simp_all add: loop_second\<close>)

lemma loop_first_success:
  assumes "attempt_loop req svc 1 l = (Inr out, evs)"
  shows "\<exists>n. 1 \<le> n \<and> n \<le> 3 \<and> attempt_outcome n (svc n) = Return out"
proof (cases "attempt_outcome 1 (svc 1)")
  case (Return o1)
  with assms have "o1 = out" by (simp only: loop_first completion.case prod.inject sum.inject)
  with Return have "1 \<le> (1::nat) \<and> (1::nat) \<le> 3 \<and> attempt_outcome 1 (svc 1) = Return out"
    by simp
  then show ?thesis by (rule exI)
next
  case (Throw e)
  with assms show ?thesis by (simp only: loop_first completion.case prod.inject) simp
next
  case (Continue e)
  obtain r evs' where l2: "attempt_loop req svc 2 (Some e) = (r, evs')"
    by (cases "attempt_loop req svc 2 (Some e)")
  with assms Continue have "r = Inr out"
    by (simp only: loop_first completion.case prod.case prod.inject)
  with l2 loop_second_success
  have "attempt_outcome 2 (svc 2) = Return out \<or> attempt_outcome 3 (svc 3) = Return out" by blast
  then show ?thesis
  proof
    assume "attempt_outcome 2 (svc 2) = Return out"
    then have "1 \<le> (2::nat) \<and> (2::nat) \<le> 3 \<and> attempt_outcome 2 (svc 2) = Return out" by simp
    then show ?thesis by (rule exI)
  next
    assume "attempt_outcome 3 (svc 3) = Return out"
    then have "1 \<le> (3::nat) \<and> (3::nat) \<le> 3 \<and> attempt_outcome 3 (svc 3) = Return out" by simp
    then show ?thesis by (rule exI)
  qed
qed

lemma flow_success_reaches_loop:
  assumes "transcribeLiveSpeechFlow env svc input = (Inr out, evs)"
  shows "\<exists>req. attempt_loop req svc 1 None = (Inr out, evs)"
  using assms
  by (auto simp: transcribeLiveSpeechFlow_def split: sum.splits)

text \<open>
  C8. Whenever the flow succeeds, one of its at most three attempts received a response
  with a 2xx status and a JSON body with a \<open>results\<close> array, and the transcription
  returned is the recognized segments of that array, in its order, joined by single
  spaces and trimmed; it is never empty. A 2xx response whose joined and trimmed segments
  are empty never makes its attempt return. The results with transcripts "a" and "b"
  give "a b".
\<close>

theorem success_is_joined_segments:
  "(transcribeLiveSpeechFlow env svc input = (Inr out, evs) \<longrightarrow>
      (\<exists>n resp j rs. 1 \<le> n \<and> n \<le> 3 \<and> svc n = Resolved resp \<and> ok resp
          \<and> body resp \<noteq> [] \<and> parsed resp = Some j \<and> get_prop j ''results'' = Some (JArr rs)
          \<and> transcription out = trim (join '' '' (recognized_segments rs)))
      \<and> transcription out \<noteq> [])
   \<and> (ok resp \<and> body resp \<noteq> [] \<and> parsed resp = Some j \<and> get_prop j ''results'' = Some (JArr rs)
        \<and> trim (join '' '' (recognized_segments rs)) = [] \<longrightarrow>
        attempt_outcome n (Resolved resp) \<noteq> Return out')
   \<and> transcribeLiveSpeechFlow None (mock_service [json_response 200 (results_json [''a'', ''b''])])
        webm_input = (Inr \<lparr>transcription = ''a b''\<rparr>, [Fetch webm_request])"
proof (intro conjI impI)
  assume "transcribeLiveSpeechFlow env svc input = (Inr out, evs)"
  then obtain req where "attempt_loop req svc 1 None = (Inr out, evs)"
    using flow_success_reaches_loop by blast
  then obtain n where n: "1 \<le> n" "n \<le> 3" and ret: "attempt_outcome n (svc n) = Return out"
    using loop_first_success by blast
  from ret have "try_body n (svc n) = Return out" by (rule attempt_outcome_Return)
  from try_body_Return [OF this] obtain resp j rs where
    "svc n = Resolved resp" "ok resp" "body resp \<noteq> []" "parsed resp = Some j"
    "get_prop j ''results'' = Some (JArr rs)"
    "transcription out = trim (join '' '' (recognized_segments rs))"
    and ne: "transcription out \<noteq> []"
    by blast
  with n show "\<exists>n resp j rs. 1 \<le> n \<and> n \<le> 3 \<and> svc n = Resolved resp \<and> ok resp
          \<and> body resp \<noteq> [] \<and> parsed resp = Some j \<and> get_prop j ''results'' = Some (JArr rs)
          \<and> transcription out = trim (join '' '' (recognized_segments rs))"
    by blast
  from ne show "transcription out \<noteq> []" .
next
  assume h: "ok resp \<and> body resp \<noteq> [] \<and> parsed resp = Some j
             \<and> get_prop j ''results'' = Some (JArr rs)
             \<and> trim (join '' '' (recognized_segments rs)) = []"
  show "attempt_outcome n (Resolved resp) \<noteq> Return out'"
  proof
    assume "attempt_outcome n (Resolved resp) = Return out'"
    then have "try_body n (Resolved resp) = Return out'" by (rule attempt_outcome_Return)
    from try_body_Return [OF this] obtain j' rs' where
      "parsed resp = Some j'" "get_prop j' ''results'' = Some (JArr rs')"
      "transcription out' = trim (join '' '' (recognized_segments rs'))"
      "transcription out' \<noteq> []"
      by blast
    with h show False by simp
  qed
next
  show "transcribeLiveSpeechFlow None (mock_service [json_response 200 (results_json [''a'', ''b''])])
        webm_input = (Inr \<lparr>transcription = ''a b''\<rparr>, [Fetch webm_request])"
    by code_simp
qed

theorem success_is_joined_segments_witness:
  "((\<exists>n resp j rs. 1 \<le> n \<and> n \<le> 3
        \<and> mock_service [json_response 500 (error_json ''Internal error''),
                         json_response 200 (results_json [''hello'', ''world ''])] n = Resolved resp
        \<and> ok resp \<and> body resp \<noteq> [] \<and> parsed resp = Some j
        \<and> get_prop j ''results'' = Some (JArr rs)
        \<and> ''hello world'' = trim (join '' '' (recognized_segments rs))))
   \<and> attempt_outcome 1
        (Resolved \<lparr>status = 200, body = JSON_stringify (results_json ['' '', []]),
                   parsed = Some (results_json ['' '', []])\<rparr>)
       \<noteq> Return \<lparr>transcription = []\<rparr>"
proof -
  let ?svc = "mock_service [json_response 500 (error_json ''Internal error''),
                            json_response 200 (results_json [''hello'', ''world ''])]"
  let ?blank = "\<lparr>status = 200, body = JSON_stringify (results_json ['' '', []]),
                 parsed = Some (results_json ['' '', []])\<rparr>"
  have run: "transcribeLiveSpeechFlow None ?svc webm_input =
               (Inr \<lparr>transcription = ''hello world''\<rparr>,
                [Fetch webm_request, Delay 1000, Fetch webm_request])"
    by code_simp
  have blank: "ok ?blank \<and> body ?blank \<noteq> [] \<and> parsed ?blank = Some (results_json ['' '', []])
        \<and> get_prop (results_json ['' '', []]) ''results'' =
            Some (JArr [JObj [(''alternatives'', JArr [JObj [(''transcript'', JStr '' '')]])],
                        JObj [(''alternatives'', JArr [JObj [(''transcript'', JStr [])]])]])
        \<and> trim (join '' '' (recognized_segments
              [JObj [(''alternatives'', JArr [JObj [(''transcript'', JStr '' '')]])],
               JObj [(''alternatives'', JArr [JObj [(''transcript'', JStr [])]])]])) = []"
    by code_simp
  note inst = success_is_joined_segments
               [where env = None and svc = ?svc and input = webm_input
                  and out = "\<lparr>transcription = ''hello world''\<rparr>"
                  and evs = "[Fetch webm_request, Delay 1000, Fetch webm_request]"
                  and resp = ?blank and j = "results_json ['' '', []]"
                  and rs = "[JObj [(''alternatives'', JArr [JObj [(''transcript'', JStr '' '')]])],
                             JObj [(''alternatives'', JArr [JObj [(''transcript'', JStr [])]])]]"
                  and n = 1 and out' = "\<lparr>transcription = []\<rparr>"]
  from inst run have one: "\<exists>n resp j rs. 1 \<le> n \<and> n \<le> 3 \<and> ?svc n = Resolved resp \<and> ok resp
          \<and> body resp \<noteq> [] \<and> parsed resp = Some j \<and> get_prop j ''results'' = Some (JArr rs)
          \<and> transcription \<lparr>transcription = ''hello world''\<rparr>
              = trim (join '' '' (recognized_segments rs))"
    by blast
  from inst blank have two: "attempt_outcome 1 (Resolved ?blank) \<noteq> Return \<lparr>transcription = []\<rparr>"
    by blast
  from one have one': "\<exists>n resp j rs. 1 \<le> n \<and> n \<le> 3 \<and> ?svc n = Resolved resp \<and> ok resp
          \<and> body resp \<noteq> [] \<and> parsed resp = Some j \<and> get_prop j ''results'' = Some (JArr rs)
          \<and> ''hello world'' = trim (join '' '' (recognized_segments rs))"
    by simp
  from one' two show ?thesis by (rule conjI)
qed

section \<open>The container round trip\<close>

lemma index_of_nth: "distinct xs \<Longrightarrow> i < length xs \<Longrightarrow> index_of (xs ! i) xs = Some i"
proof (induction xs arbitrary: i)
  case Nil
  then show ?case by simp
next
  case (Cons x xs)
  show ?case
  proof (cases i)
    case 0
    then show ?thesis by simp
  next
    case (Suc k)
    with Cons.prems have "xs ! k \<noteq> x" by auto
    with Suc Cons show ?thesis by auto
  qed
qed

lemma b64_alphabet_distinct: "distinct b64_alphabet"
  by code_simp

lemma b64_alphabet_length: "length b64_alphabet = 64"
  by (simp add: b64_alphabet_def)

lemma b64_value_char: "i < 64 \<Longrightarrow> b64_value (b64_char i) = Some i"
  by (simp add: b64_value_def b64_char_def index_of_nth b64_alphabet_distinct b64_alphabet_length)

lemma b64_char_not_pad: "i < 64 \<Longrightarrow> b64_char i \<noteq> CHR ''=''"
proof -
  have "CHR ''='' \<notin> set b64_alphabet" by code_simp
  moreover assume "i < 64"
  then have "b64_char i \<in> set b64_alphabet"
    by (simp add: b64_char_def b64_alphabet_length)
  ultimately show ?thesis by metis
qed

lemma unat_byte: "unat (a :: byte) < 256"
  using unsigned_less [of a, where ?'a = nat] by simp

lemma split16: "q < 16 \<Longrightarrow> (p * 16 + q) div 16 = (p::nat)" "q < 16 \<Longrightarrow> (p * 16 + q) mod 16 = q"
  by simp_all

lemma split4: "q < 4 \<Longrightarrow> (p * 4 + q) div 4 = (p::nat)" "q < 4 \<Longrightarrow> (p * 4 + q) mod 4 = q"
  by simp_all

lemma byte_rejoin_1: "y < 256 \<Longrightarrow> x div 4 * 4 + (x mod 4 * 16 + y div 16) div 16 = (x::nat)"
proof -
  assume "y < 256"
  then have "y div 16 < 16" by simp
  then show ?thesis by (simp add: split16)
qed

lemma byte_rejoin_2: "z < 256 \<Longrightarrow>
    (x mod 4 * 16 + y div 16) mod 16 * 16 + (y mod 16 * 4 + z div 64) div 4 = (y::nat)"
  if "y < 256"
proof -
  assume "z < 256"
  then have z: "z div 64 < 4" by simp
  from that have y: "y div 16 < 16" by simp
  show ?thesis by (simp add: split16 split4 y z)
qed

lemma byte_rejoin_3: "z < 256 \<Longrightarrow> (y mod 16 * 4 + z div 64) mod 4 * 64 + z mod 64 = (z::nat)"
proof -
  assume "z < 256"
  then have z: "z div 64 < 4" by simp
  show ?thesis by (simp add: split4 z)
qed

lemma sextet_bounds:
  "x < 256 \<Longrightarrow> x div 4 < (64::nat)"
  "y < 256 \<Longrightarrow> x mod 4 * 16 + y div 16 < (64::nat)"
  "z < 256 \<Longrightarrow> y mod 16 * 4 + z div 64 < (64::nat)"
  "z mod 64 < (64::nat)"
proof -
  show "x < 256 \<Longrightarrow> x div 4 < (64::nat)" by simp
  show "z mod 64 < (64::nat)" by simp
  show "x mod 4 * 16 + y div 16 < (64::nat)" if "y < 256"
  proof -
    from that have "y div 16 < 16" by simp
    moreover have "x mod 4 < 4" by simp
    ultimately show ?thesis by linarith
  qed
  show "y mod 16 * 4 + z div 64 < (64::nat)" if "z < 256"
  proof -
    from that have "z div 64 < 4" by simp
    moreover have "y mod 16 < 16" by simp
    ultimately show ?thesis by linarith
  qed
qed

lemma decode_full:
  assumes "s0 < 64" "s1 < 64" "s2 < 64" "s3 < 64"
  shows "base64_decode (b64_char s0 # b64_char s1 # b64_char s2 # b64_char s3 # rest) =
           map_option (\<lambda>bs. of_nat (s0 * 4 + s1 div 16) # of_nat (s1 mod 16 * 16 + s2 div 4)
                              # of_nat (s2 mod 4 * 64 + s3) # bs) (base64_decode rest)"
  using assms by (simp add: b64_value_char b64_char_not_pad)

lemma decode_pad1:
  assumes "s0 < 64" "s1 < 64" "s2 < 64"
  shows "base64_decode [b64_char s0, b64_char s1, b64_char s2, CHR ''=''] =
           Some [of_nat (s0 * 4 + s1 div 16), of_nat (s1 mod 16 * 16 + s2 div 4)]"
  using assms by (simp add: b64_value_char b64_char_not_pad)

lemma decode_pad2:
  assumes "s0 < 64" "s1 < 64"
  shows "base64_decode [b64_char s0, b64_char s1, CHR ''='', CHR ''=''] =
           Some [of_nat (s0 * 4 + s1 div 16)]"
  using assms by (simp add: b64_value_char)

lemma base64_roundtrip: "base64_decode (base64_encode bs) = Some bs"
proof (induction bs rule: base64_encode.induct)
  case 1
  then show ?case by simp
next
  case (2 a)
  define s0 s1 where "s0 = unat a div 4" and "s1 = unat a mod 4 * 16"
  have x: "unat a < 256" by (rule unat_byte)
  have b0: "s0 < 64" unfolding s0_def using x by simp
  have "unat a mod 4 < 4" by simp
  then have b1: "s1 < 64" unfolding s1_def by linarith
  have enc: "base64_encode [a] = [b64_char s0, b64_char s1, CHR ''='', CHR ''='']"
    by (simp add: Let_def s0_def s1_def)
  have "s0 * 4 + s1 div 16 = unat a" unfolding s0_def s1_def by simp
  then have "(of_nat (s0 * 4 + s1 div 16) :: byte) = a" by simp
  then show ?case unfolding enc decode_pad2 [OF b0 b1] by simp
next
  case (3 a b)
  define s0 s1 s2 where "s0 = unat a div 4" and "s1 = unat a mod 4 * 16 + unat b div 16"
    and "s2 = unat b mod 16 * 4"
  have x: "unat a < 256" and y: "unat b < 256" by (rule unat_byte)+
  have b0: "s0 < 64" unfolding s0_def using x by simp
  have b1: "s1 < 64" unfolding s1_def using y by (rule sextet_bounds(2))
  have "unat b mod 16 < 16" by simp
  then have b2: "s2 < 64" unfolding s2_def by linarith
  have enc: "base64_encode [a, b] = [b64_char s0, b64_char s1, b64_char s2, CHR ''='']"
    by (simp add: Let_def s0_def s1_def s2_def)
  have "s0 * 4 + s1 div 16 = unat a"
    unfolding s0_def s1_def using y by (rule byte_rejoin_1)
  then have r1: "(of_nat (s0 * 4 + s1 div 16) :: byte) = a" by simp
  have "unat b div 16 < 16" using y by simp
  then have "s1 mod 16 * 16 + s2 div 4 = unat b"
    unfolding s1_def s2_def by (simp add: split16)
  then have r2: "(of_nat (s1 mod 16 * 16 + s2 div 4) :: byte) = b" by simp
  show ?case unfolding enc decode_pad1 [OF b0 b1 b2] r1 r2 by (rule refl)
next
  case (4 a b c rest)
  define s0 s1 s2 s3 where "s0 = unat a div 4" and "s1 = unat a mod 4 * 16 + unat b div 16"
    and "s2 = unat b mod 16 * 4 + unat c div 64" and "s3 = unat c mod 64"
  have x: "unat a < 256" and y: "unat b < 256" and z: "unat c < 256" by (rule unat_byte)+
  have b0: "s0 < 64" unfolding s0_def using x by simp
  have b1: "s1 < 64" unfolding s1_def using y by (rule sextet_bounds(2))
  have b2: "s2 < 64" unfolding s2_def using z by (rule sextet_bounds(3))
  have b3: "s3 < 64" unfolding s3_def by simp
  have enc: "base64_encode (a # b # c # rest) =
               b64_char s0 # b64_char s1 # b64_char s2 # b64_char s3 # base64_encode rest"
    by (simp add: Let_def s0_def s1_def s2_def s3_def)
  have "s0 * 4 + s1 div 16 = unat a"
    unfolding s0_def s1_def using y by (rule byte_rejoin_1)
  then have r1: "(of_nat (s0 * 4 + s1 div 16) :: byte) = a" by simp
  have "s1 mod 16 * 16 + s2 div 4 = unat b"
    unfolding s1_def s2_def using y z by (rule byte_rejoin_2)
  then have r2: "(of_nat (s1 mod 16 * 16 + s2 div 4) :: byte) = b" by simp
  have "s2 mod 4 * 64 + s3 = unat c"
    unfolding s2_def s3_def using z by (rule byte_rejoin_3)
  then have r3: "(of_nat (s2 mod 4 * 64 + s3) :: byte) = c" by simp
  show ?case unfolding enc decode_full [OF b0 b1 b2 b3] r1 r2 r3 using "4.IH" by simp
qed

lemma unat_of_nat_byte: "n < 256 \<Longrightarrow> unat (of_nat n :: byte) = n"
  by (simp add: unat_of_nat)

lemma le_nat_u16le: "n < 65536 \<Longrightarrow> le_nat (u16le n) = n"
proof -
  assume "n < 65536"
  then have "n div 256 < 256" by simp
  then show ?thesis by (simp add: u16le_def unat_of_nat_byte)
qed

lemma le_nat_u32le: "n < 4294967296 \<Longrightarrow> le_nat (u32le n) = n"
proof -
  assume n: "n < 4294967296"
  define q1 q2 q3 where "q1 = n div 256" and "q2 = q1 div 256" and "q3 = q2 div 256"
  have q3: "q3 < 256" unfolding q3_def q2_def q1_def using n by simp
  have d2: "n div 65536 = q2" and d3: "n div 16777216 = q3"
    unfolding q3_def q2_def q1_def by (simp_all add: div_mult2_eq)
  have "le_nat (u32le n) = n mod 256 + 256 * (q1 mod 256 + 256 * (q2 mod 256 + 256 * q3))"
    unfolding u32le_def d2 d3 q1_def [symmetric] using q3
    by (simp add: unat_of_nat_byte)
  also have "q2 mod 256 + 256 * q3 = q2" unfolding q3_def by simp
  also have "q1 mod 256 + 256 * q2 = q1" unfolding q2_def by simp
  also have "n mod 256 + 256 * q1 = n" unfolding q1_def by simp
  finally show ?thesis .
qed

lemma header_length: "length (wav_header c r b n) = 44"
  by (simp add: wav_header_def ascii_bytes_def u16le_def u32le_def)

lemma length_ascii: "length (ascii_bytes s) = length s"
  by (simp add: ascii_bytes_def)

lemma length_u16le: "length (u16le n) = 2"
  by (simp add: u16le_def)

lemma length_u32le: "length (u32le n) = 4"
  by (simp add: u32le_def)

lemma parse_wav_header:
  assumes "c < 65536" "r < 4294967296" "b < 65536" "length pcm \<le> d" "d < 4294967296"
  shows "parse_wav (wav_header c r b d @ pcm) =
           Some \<lparr>wav_channels = c, wav_sampleRate = r, wav_bitDepth = b, wav_pcm = pcm\<rparr>"
proof -
  let ?bs = "wav_header c r b d @ pcm"
  note len = length_ascii length_u16le length_u32le
  have f0: "bytes_at 0 4 ?bs = ascii_bytes ''RIFF''"
    and f8: "bytes_at 8 4 ?bs = ascii_bytes ''WAVE''"
    and f12: "bytes_at 12 4 ?bs = ascii_bytes ''fmt ''"
    and f16: "bytes_at 16 4 ?bs = u32le 16"
    and f20: "bytes_at 20 2 ?bs = u16le 1"
    and f22: "bytes_at 22 2 ?bs = u16le c"
    and f24: "bytes_at 24 4 ?bs = u32le r"
    and f34: "bytes_at 34 2 ?bs = u16le b"
    and f36: "bytes_at 36 4 ?bs = ascii_bytes ''data''"
    and f40: "bytes_at 40 4 ?bs = u32le d"
    and rest: "drop 44 ?bs = pcm"
    by (simp_all add: bytes_at_def wav_header_def len)
  have long: "44 \<le> length ?bs" by (simp add: header_length)
  show ?thesis
    unfolding parse_wav_def f0 f8 f12 f16 f20 f22 f24 f34 f36 f40 rest
    using assms long by (simp add: le_nat_u16le le_nat_u32le)
qed

text \<open>
  C9. The container encoding is a function of the PCM bytes and the parameters, and it
  round-trips: decoding the base64 text that \<open>toWav\<close> returns for channels 1, rate
  24000 and sample width 2, and reading the header, gives back the PCM bytes, channel
  count 1, sample rate 24000 and bit depth 16. The payload must fit the 32-bit size
  field of the header.
\<close>

theorem container_roundtrip:
  assumes "length pcm < 4294967296"
  shows "decodeContainer (toWav pcm 1 24000 2) =
           Some \<lparr>wav_channels = 1, wav_sampleRate = 24000, wav_bitDepth = 16, wav_pcm = pcm\<rparr>"
  unfolding decodeContainer_def toWav_def base64_roundtrip
  using parse_wav_header [of 1 24000 16 pcm] assms by simp

theorem container_roundtrip_witness:
  "decodeContainer (toWav [0x01, 0x00, 0xFF, 0x7F] 1 24000 2) =
     Some \<lparr>wav_channels = 1, wav_sampleRate = 24000, wav_bitDepth = 16,
            wav_pcm = [0x01, 0x00, 0xFF, 0x7F]\<rparr>
   \<and> toWav [0x01, 0x00, 0xFF, 0x7F] 1 24000 2 =
       ''UklGRigAAABXQVZFZm10IBAAAAABAAEAwF0AAIC7AAACABAAZGF0YQQAAAABAP9/''"
proof -
  have "length [0x01, 0x00, 0xFF, 0x7F :: byte] < 4294967296" by simp
  then have decoded: "decodeContainer (toWav [0x01, 0x00, 0xFF, 0x7F] 1 24000 2) =
     Some \<lparr>wav_channels = 1, wav_sampleRate = 24000, wav_bitDepth = 16,
            wav_pcm = [0x01, 0x00, 0xFF, 0x7F]\<rparr>"
    by (rule container_roundtrip)
  have encoded: "toWav [0x01, 0x00, 0xFF, 0x7F] 1 24000 2 =
       ''UklGRigAAABXQVZFZm10IBAAAAABAAEAwF0AAIC7AAACABAAZGF0YQQAAAABAP9/''"
    by (simp add: toWav_def wav_header_def ascii_bytes_def u32le_def u16le_def Let_def
          b64_char_def b64_alphabet_def)
  from decoded encoded show ?thesis by (rule conjI)
qed

end
